theory Spec2Isabelle
  imports Complex_Main "HOL-Library.AList" "HOL-Library.Multiset" "HOL-Library.Product_Lexorder"
begin

section \<open>Conventions of the embedding\<close>

text \<open>
  Python floats are modelled as \<^typ>\<open>real\<close>, and the statements below are about exact
  arithmetic; the one exception is the decay pass, whose statement is about the rounded
  arithmetic of the machine (\<open>Double-precision arithmetic\<close> below). A Python \<open>dict\<close> is an association list in insertion order whose keys are
  pairwise distinct; assigning to a key is \<^const>\<open>AList.update\<close> (an existing key keeps
  its place, a new key goes to the end) and mutating the object stored under a key is
  \<^const>\<open>AList.map_entry\<close>. Every operation that receives the mutable graph returns the
  graph as the call leaves it, next to its result. An exception is a value of
  type \<open>error\<close>.
\<close>

datatype error =
    DuplicateNode string
  | MissingSource string
  | MissingTarget string
  | KeyError string
  | IndexError

subsection \<open>\<open>list.sort(key=..., reverse=True)\<close>\<close>

text \<open>
  Python's sort is stable, also with \<open>reverse=True\<close>: elements with equal keys keep
  their original relative order. The model is a stable insertion sort into descending
  order.
\<close>

fun insort_reverse :: "('a \<Rightarrow> 'k::linorder) \<Rightarrow> 'a \<Rightarrow> 'a list \<Rightarrow> 'a list" where
  "insort_reverse f x [] = [x]"
| "insort_reverse f x (y # ys) =
     (if f y \<le> f x then x # y # ys else y # insort_reverse f x ys)"

definition sorted_reverse :: "('a \<Rightarrow> 'k::linorder) \<Rightarrow> 'a list \<Rightarrow> 'a list" where
  "sorted_reverse f xs = foldr (insort_reverse f) xs []"

subsection \<open>Node (\<open>engine/graph/node.py\<close>)\<close>

datatype ntype = Concept | Topic | Emotion | Goal | Motor | Lexeme

definition VALID_TYPES :: "ntype list" where
  "VALID_TYPES = [Concept, Topic, Emotion, Goal, Motor, Lexeme]"

record node =
  node_id :: string
  node_type :: ntype
  label :: string
  activation :: real
  baseline :: real
  decay :: real
  threshold :: real
  metadata :: "(string \<times> string) list"

definition Node_init :: "string \<Rightarrow> ntype \<Rightarrow> string \<Rightarrow> real \<Rightarrow> real \<Rightarrow> real \<Rightarrow> node" where
  "Node_init nid ty lbl bl dc th =
     \<lparr>node_id = nid, node_type = ty, label = lbl, activation = bl, baseline = bl,
      decay = dc, threshold = th, metadata = []\<rparr>"

definition reset :: "node \<Rightarrow> node" where
  "reset n = n\<lparr>activation := baseline n\<rparr>"

definition clamp :: "node \<Rightarrow> node" where
  "clamp n = n\<lparr>activation := max 0 (min 1 (activation n))\<rparr>"

definition is_active :: "node \<Rightarrow> bool" where
  "is_active n \<longleftrightarrow> threshold n \<le> activation n"

subsection \<open>Edge (\<open>engine/graph/edge.py\<close>)\<close>

datatype etype = Excitatory | Inhibitory | Associative | Causal

record edge =
  source_id :: string
  target_id :: string
  edge_type :: etype
  weight :: real
  contribution :: real

subsection \<open>BrainGraph (\<open>engine/graph/brain.py\<close>)\<close>

text \<open>
  \<open>_outgoing\<close> and \<open>_incoming\<close> hold references to the very \<open>Edge\<close> objects of
  \<open>edges\<close>; a reference is the position of the edge in \<open>edges\<close>.
\<close>

record brain_graph =
  nodes :: "(string \<times> node) list"
  edges :: "edge list"
  outgoing :: "(string \<times> nat list) list"
  incoming :: "(string \<times> nat list) list"

definition BrainGraph_init :: brain_graph where
  "BrainGraph_init = \<lparr>nodes = [], edges = [], outgoing = [], incoming = []\<rparr>"

definition setdefault :: "'k \<Rightarrow> 'v \<Rightarrow> ('k \<times> 'v) list \<Rightarrow> ('k \<times> 'v) list" where
  "setdefault k v d = (case map_of d k of None \<Rightarrow> AList.update k v d | Some _ \<Rightarrow> d)"

definition add_node :: "node \<Rightarrow> brain_graph \<Rightarrow> (error + unit) \<times> brain_graph" where
  "add_node n g =
     (if map_of (nodes g) (node_id n) \<noteq> None then (Inl (DuplicateNode (node_id n)), g)
      else (Inr (),
            g\<lparr>nodes := AList.update (node_id n) n (nodes g),
              outgoing := setdefault (node_id n) [] (outgoing g),
              incoming := setdefault (node_id n) [] (incoming g)\<rparr>))"

definition add_edge :: "edge \<Rightarrow> brain_graph \<Rightarrow> (error + unit) \<times> brain_graph" where
  "add_edge e g =
     (if map_of (nodes g) (source_id e) = None then (Inl (MissingSource (source_id e)), g)
      else if map_of (nodes g) (target_id e) = None then (Inl (MissingTarget (target_id e)), g)
      else
        (let r = length (edges g); g1 = g\<lparr>edges := edges g @ [e]\<rparr> in
         case map_of (outgoing g1) (source_id e) of
           None \<Rightarrow> (Inl (KeyError (source_id e)), g1)
         | Some outs \<Rightarrow>
             (let g2 = g1\<lparr>outgoing := AList.update (source_id e) (outs @ [r]) (outgoing g1)\<rparr> in
              case map_of (incoming g2) (target_id e) of
                None \<Rightarrow> (Inl (KeyError (target_id e)), g2)
              | Some ins \<Rightarrow>
                  (Inr (),
                   g2\<lparr>incoming := AList.update (target_id e) (ins @ [r]) (incoming g2)\<rparr>))))"

definition get_outgoing :: "brain_graph \<Rightarrow> string \<Rightarrow> edge list" where
  "get_outgoing g k =
     (case map_of (outgoing g) k of None \<Rightarrow> [] | Some rs \<Rightarrow> map (\<lambda>r. edges g ! r) rs)"

definition get_incoming :: "brain_graph \<Rightarrow> string \<Rightarrow> edge list" where
  "get_incoming g k =
     (case map_of (incoming g) k of None \<Rightarrow> [] | Some rs \<Rightarrow> map (\<lambda>r. edges g ! r) rs)"

text \<open>A node object is handed out together with the key it is stored under.\<close>

definition get_nodes_by_type :: "brain_graph \<Rightarrow> ntype \<Rightarrow> (string \<times> node) list" where
  "get_nodes_by_type g ty = filter (\<lambda>(k, n). node_type n = ty) (nodes g)"

definition get_node :: "brain_graph \<Rightarrow> string \<Rightarrow> node option" where
  "get_node g k = map_of (nodes g) k"

definition map_nodes :: "(node \<Rightarrow> node) \<Rightarrow> brain_graph \<Rightarrow> brain_graph" where
  "map_nodes f g = g\<lparr>nodes := map (\<lambda>(k, n). (k, f n)) (nodes g)\<rparr>"

definition reset_activations :: "brain_graph \<Rightarrow> brain_graph" where
  "reset_activations g = map_nodes reset g"

definition reset_contributions :: "brain_graph \<Rightarrow> brain_graph" where
  "reset_contributions g = g\<lparr>edges := map (\<lambda>e. e\<lparr>contribution := 0\<rparr>) (edges g)\<rparr>"

text \<open>
  The adjacency indices of a graph built by \<open>add_node\<close> and \<open>add_edge\<close> have an entry
  for every node.
\<close>

definition adjacency_ok :: "brain_graph \<Rightarrow> bool" where
  "adjacency_ok g \<longleftrightarrow>
     fst ` set (outgoing g) = fst ` set (nodes g) \<and>
     fst ` set (incoming g) = fst ` set (nodes g)"

subsection \<open>Double-precision arithmetic\<close>

text \<open>
  A Python float is an IEEE 754 double and every arithmetic operation returns the exact
  result rounded to the nearest double, a tie going to the double with the even
  significand. \<open>binary64\<close> below is that rounding as a function on the reals. A
  double has 53 significant bits, so the doubles around \<open>x\<close> are the integer multiples
  of \<open>2 ^ e\<close> with \<open>e = \<lfloor>log 2 |x|\<rfloor> - 52\<close>; the subnormal numbers are included, the
  spacing never gets finer than \<open>2 ^ (-1074)\<close>. The exponent range is not closed above:
  where the machine would return \<open>inf\<close>, beyond \<open>max_double\<close>, the model and the machine
  part, and a statement about the machine has to show that no operation gets there.
\<close>

definition round_even :: "real \<Rightarrow> int" where
  "round_even y =
     (let f = \<lfloor>y\<rfloor>; r = y - of_int f in
      if r < 1 / 2 then f else if 1 / 2 < r then f + 1 else if even f then f else f + 1)"

definition exponent :: "real \<Rightarrow> int" where
  "exponent x = max (\<lfloor>log 2 \<bar>x\<bar>\<rfloor> - 52) (- 1074)"

definition spacing :: "real \<Rightarrow> real" where
  "spacing x = 2 powr of_int (exponent x)"

definition binary64 :: "real \<Rightarrow> real" where
  "binary64 x = (if x = 0 then 0 else of_int (round_even (x / spacing x)) * spacing x)"


subsection \<open>Dynamics (\<open>engine/cognition/dynamics.py\<close>)\<close>

record dynamics_config =
  steps :: int
  inhibition_strength :: real
  competition_within_type :: bool

definition DynamicsConfig_init :: dynamics_config where
  "DynamicsConfig_init =
     \<lparr>steps = 20, inhibition_strength = 15 / 100, competition_within_type = True\<rparr>"

record step_record =
  step_num :: nat
  top_active :: "(string \<times> real) list"

record dynamics_result =
  step_records :: "step_record list"
  final_activations :: "(string \<times> real) list"
  top_contributing_edges :: "(string \<times> string \<times> etype \<times> real) list"

definition default_modulators :: "(string \<times> real) list" where
  "default_modulators = [(''curiosity'', 1 / 2), (''calm'', 1 / 2), (''urgency'', 3 / 10)]"

text \<open>Mutating the node object stored under key \<open>k\<close>.\<close>

definition update_node :: "string \<Rightarrow> (node \<Rightarrow> node) \<Rightarrow> brain_graph \<Rightarrow> brain_graph" where
  "update_node k f g = g\<lparr>nodes := AList.map_entry k f (nodes g)\<rparr>"

definition inject :: "(string \<times> real) list \<Rightarrow> brain_graph \<Rightarrow> brain_graph" where
  "inject initial_activations g =
     fold (\<lambda>(k, v) g.
             case get_node g k of
               None \<Rightarrow> g
             | Some _ \<Rightarrow> update_node k (\<lambda>n. n\<lparr>activation := min 1 (activation n + v)\<rparr>) g)
          initial_activations g"

definition decay_node :: "node \<Rightarrow> node" where
  "decay_node n = n\<lparr>activation := activation n + (baseline n - activation n) * decay n\<rparr>"

definition decay_pass :: "brain_graph \<Rightarrow> brain_graph" where
  "decay_pass g = map_nodes decay_node g"




definition edge_spread :: "real \<Rightarrow> node \<Rightarrow> edge \<Rightarrow> real" where
  "edge_spread curiosity_mod src e =
     (let spread = activation src * weight e in
      case edge_type e of
        Inhibitory \<Rightarrow> - \<bar>spread\<bar>
      | Associative \<Rightarrow> spread * (1 / 2 + curiosity_mod * (1 / 2))
      | Causal \<Rightarrow> spread * (8 / 10)
      | Excitatory \<Rightarrow> spread)"

text \<open>
  The body of the loop over \<open>graph.edges\<close>: it reads the nodes of the graph, writes the
  edge's \<open>contribution\<close> and the \<open>deltas\<close> dictionary, and writes no node.
\<close>

definition spread_edge ::
  "brain_graph \<Rightarrow> real \<Rightarrow> edge \<Rightarrow> (string \<times> real) list \<Rightarrow> edge \<times> (string \<times> real) list" where
  "spread_edge g curiosity_mod e deltas =
     (case get_node g (source_id e) of
        None \<Rightarrow> (e, deltas)
      | Some src \<Rightarrow>
          if is_active src then
            (let spread = edge_spread curiosity_mod src e in
             (e\<lparr>contribution := contribution e + \<bar>spread\<bar>\<rparr>,
              AList.update (target_id e)
                ((case map_of deltas (target_id e) of None \<Rightarrow> 0 | Some d \<Rightarrow> d) + spread)
                deltas))
          else (e, deltas))"

fun spread_edges ::
  "brain_graph \<Rightarrow> real \<Rightarrow> edge list \<Rightarrow> (string \<times> real) list
     \<Rightarrow> edge list \<times> (string \<times> real) list" where
  "spread_edges g curiosity_mod [] deltas = ([], deltas)"
| "spread_edges g curiosity_mod (e # es) deltas =
     (let (e', deltas') = spread_edge g curiosity_mod e deltas;
          (es', deltas'') = spread_edges g curiosity_mod es deltas'
      in (e' # es', deltas''))"

definition apply_deltas :: "(string \<times> real) list \<Rightarrow> brain_graph \<Rightarrow> brain_graph" where
  "apply_deltas deltas g =
     fold (\<lambda>(k, delta) g.
             case get_node g k of
               None \<Rightarrow> g
             | Some _ \<Rightarrow> update_node k (\<lambda>n. n\<lparr>activation := activation n + delta\<rparr>) g)
          deltas g"

definition spread_pass :: "real \<Rightarrow> brain_graph \<Rightarrow> brain_graph" where
  "spread_pass curiosity_mod g =
     (let (es, deltas) = spread_edges g curiosity_mod (edges g) []
      in apply_deltas deltas (g\<lparr>edges := es\<rparr>))"

definition compete_type :: "real \<Rightarrow> ntype \<Rightarrow> brain_graph \<Rightarrow> brain_graph" where
  "compete_type strength ty g =
     (let type_nodes = get_nodes_by_type g ty in
      if length type_nodes \<le> 1 then g
      else
        (let active_nodes = filter (\<lambda>(k, n). is_active n) type_nodes in
         if length active_nodes \<le> 1 then g
         else
           (let active_sorted = sorted_reverse (\<lambda>(k, n). activation n) active_nodes in
            fold (\<lambda>(i, (k, n)) g.
                    update_node k
                      (\<lambda>m. m\<lparr>activation :=
                              activation m - strength * (real i / real (length active_sorted))\<rparr>)
                      g)
                 (enumerate 1 (tl active_sorted)) g)))"

definition competition :: "dynamics_config \<Rightarrow> brain_graph \<Rightarrow> brain_graph" where
  "competition config g =
     (if competition_within_type config
      then fold (compete_type (inhibition_strength config)) VALID_TYPES g
      else g)"

definition clamp_pass :: "brain_graph \<Rightarrow> brain_graph" where
  "clamp_pass g = map_nodes clamp g"

definition record_step :: "nat \<Rightarrow> brain_graph \<Rightarrow> step_record" where
  "record_step step g =
     \<lparr>step_num = step,
      top_active =
        take 8 (sorted_reverse snd
                  (map (\<lambda>(k, n). (node_id n, activation n))
                       (filter (\<lambda>(k, n). is_active n) (nodes g))))\<rparr>"

definition simulation_step ::
  "dynamics_config \<Rightarrow> real \<Rightarrow> nat \<Rightarrow> brain_graph \<Rightarrow> brain_graph \<times> step_record" where
  "simulation_step config curiosity_mod step g =
     (let g1 = decay_pass g;
          g2 = spread_pass curiosity_mod g1;
          g3 = competition config g2;
          g4 = clamp_pass g3
      in (g4, record_step step g4))"

text \<open>The state of \<open>for step in range(n)\<close> after \<open>n\<close> iterations.\<close>

definition dynamics_loop ::
  "dynamics_config \<Rightarrow> real \<Rightarrow> nat \<Rightarrow> brain_graph \<Rightarrow> brain_graph \<times> step_record list" where
  "dynamics_loop config curiosity_mod n g =
     fold (\<lambda>step (g, recs).
             let (g', r) = simulation_step config curiosity_mod step g in (g', recs @ [r]))
          [0..<n] (g, [])"

definition run_dynamics ::
  "brain_graph \<Rightarrow> (string \<times> real) list \<Rightarrow> dynamics_config option
     \<Rightarrow> (string \<times> real) list option \<Rightarrow> dynamics_result \<times> brain_graph" where
  "run_dynamics g initial_activations config_opt modulators_opt =
     (let config = (case config_opt of None \<Rightarrow> DynamicsConfig_init | Some c \<Rightarrow> c);
          modulators = (case modulators_opt of None \<Rightarrow> default_modulators | Some m \<Rightarrow> m);
          g0 = inject initial_activations (reset_contributions (reset_activations g));
          curiosity_mod = (case map_of modulators ''curiosity'' of None \<Rightarrow> 1 / 2 | Some c \<Rightarrow> c);
          (g1, recs) = dynamics_loop config curiosity_mod (nat (steps config)) g0
      in (\<lparr>step_records = recs,
           final_activations = map (\<lambda>(k, n). (k, activation n)) (nodes g1),
           top_contributing_edges =
             map (\<lambda>e. (source_id e, target_id e, edge_type e, contribution e))
                 (take 10 (sorted_reverse contribution (edges g1)))\<rparr>,
          g1))"



subsection \<open>Goal selection (\<open>engine/cognition/goals.py\<close>)\<close>

record goal_result =
  candidates :: "(string \<times> real) list"
  selected_goal :: "string option"
  selected_activation :: real

definition GoalResult_init :: goal_result where
  "GoalResult_init = \<lparr>candidates = [], selected_goal = None, selected_activation = 0\<rparr>"

definition goal_candidates :: "brain_graph \<Rightarrow> (string \<times> real) list" where
  "goal_candidates g = map (\<lambda>(k, n). (node_id n, activation n)) (get_nodes_by_type g Goal)"

definition select_goal :: "brain_graph \<Rightarrow> (error + goal_result) \<times> brain_graph" where
  "select_goal g =
     (let goal_nodes = get_nodes_by_type g Goal in
      if goal_nodes = [] then (Inr GoalResult_init, g)
      else
        (let cands = sorted_reverse snd (map (\<lambda>(k, n). (node_id n, activation n)) goal_nodes) in
         case cands of
           [] \<Rightarrow> (Inl IndexError, g)
         | c # _ \<Rightarrow>
             if 0 < snd c
             then (Inr \<lparr>candidates = cands, selected_goal = Some (fst c),
                        selected_activation = snd c\<rparr>, g)
             else (Inr \<lparr>candidates = cands, selected_goal = Some (fst c),
                        selected_activation = snd c\<rparr>, g)))"

subsection \<open>Lexicon (\<open>engine/loaders/lexicon_loader.py\<close>)\<close>

record lexicon_entry =
  entry_id :: string
  entry_text :: string
  concept_ids :: "string list"
  entry_pos :: string

record lexicon =
  words :: "(string \<times> lexicon_entry) list"
  phrases :: "(string \<times> lexicon_entry) list"
  synonyms :: "(string \<times> string) list"
  stopwords :: "string list"
  concept_to_words :: "(string \<times> string list) list"

definition lookup_word :: "lexicon \<Rightarrow> string \<Rightarrow> lexicon_entry option" where
  "lookup_word lexicon w = map_of (words lexicon) w"

definition lookup_phrase :: "lexicon \<Rightarrow> string \<Rightarrow> lexicon_entry option" where
  "lookup_phrase lexicon w = map_of (phrases lexicon) w"

definition get_words_for_concept :: "lexicon \<Rightarrow> string \<Rightarrow> string list" where
  "get_words_for_concept lexicon c =
     (case map_of (concept_to_words lexicon) c of None \<Rightarrow> [] | Some ws \<Rightarrow> ws)"

subsection \<open>Motor system (\<open>engine/language/motor.py\<close>)\<close>

text \<open>
  The \<open>reason\<close> field of a candidate, a trace string that formats a float, is left
  out: nothing reads it.
\<close>

record word_candidate =
  word :: string
  concept_id :: string
  cand_activation :: real
  pos :: string
  score :: real

record motor_result =
  candidates_considered :: "word_candidate list"
  selected_words :: "word_candidate list"
  final_text :: string

definition POS_TRANSITIONS :: "(string \<times> string list) list" where
  "POS_TRANSITIONS =
     [(''START'', [''noun'', ''adj'', ''det'', ''pronoun'', ''interjection'', ''verb'', ''adverb'']),
      (''det'', [''noun'', ''adj'']),
      (''adj'', [''noun'', ''adj'', ''conjunction'']),
      (''noun'', [''verb'', ''conjunction'', ''prep'', ''noun'', ''adj'', ''END'']),
      (''pronoun'', [''verb'', ''adverb'']),
      (''verb'', [''noun'', ''adj'', ''det'', ''adverb'', ''prep'', ''pronoun'', ''END'']),
      (''adverb'', [''verb'', ''adj'', ''adverb'', ''END'']),
      (''prep'', [''noun'', ''det'', ''adj'', ''pronoun'']),
      (''conjunction'', [''noun'', ''det'', ''adj'', ''verb'', ''pronoun'']),
      (''interjection'', [''noun'', ''det'', ''pronoun'', ''verb'', ''END''])]"

definition GOAL_CONCEPT_BOOST :: "(string \<times> real) list" where
  "GOAL_CONCEPT_BOOST =
     [(''goal_inform'', 3 / 10), (''goal_greet'', 4 / 10), (''goal_describe'', 3 / 10),
      (''goal_farewell'', 4 / 10), (''goal_clarify'', 2 / 10)]"

text \<open>\<open>recent_words[-20:]\<close>: the last twenty entries, all of them when there are fewer.\<close>

definition last_twenty :: "string list \<Rightarrow> string list" where
  "last_twenty recent_words = drop (length recent_words - 20) recent_words"

text \<open>Step 1: the firing concept, topic and emotion nodes, concepts first.\<close>

definition active_concepts :: "brain_graph \<Rightarrow> (string \<times> real \<times> real) list" where
  "active_concepts g =
     sorted_reverse (\<lambda>(i, a, p). (p, a))
       (map (\<lambda>(k, n). (node_id n, activation n, if node_type n = Concept then 1 else 1 / 2))
            (filter (\<lambda>(k, n). is_active n \<and> node_type n \<in> {Concept, Topic, Emotion})
                    (nodes g)))"

definition lookup_entry :: "lexicon \<Rightarrow> string \<Rightarrow> lexicon_entry option" where
  "lookup_entry lexicon w =
     (case lookup_word lexicon w of Some en \<Rightarrow> Some en | None \<Rightarrow> lookup_phrase lexicon w)"

text \<open>The boost of the first edge from the goal node to the concept, if there is one.\<close>

definition goal_match :: "brain_graph \<Rightarrow> string \<Rightarrow> string \<Rightarrow> real" where
  "goal_match g goal_id cid =
     (case get_node g goal_id of
        None \<Rightarrow> 0
      | Some _ \<Rightarrow>
          (let goal_boost = (case map_of GOAL_CONCEPT_BOOST goal_id of None \<Rightarrow> 1 / 10 | Some b \<Rightarrow> b) in
           case find (\<lambda>e. target_id e = cid) (get_outgoing g goal_id) of
             None \<Rightarrow> 0
           | Some e \<Rightarrow> goal_boost * \<bar>weight e\<bar>))"

definition concept_candidates ::
  "brain_graph \<Rightarrow> lexicon \<Rightarrow> string \<Rightarrow> string list \<Rightarrow> string \<times> real \<times> real
     \<Rightarrow> word_candidate list" where
  "concept_candidates g lexicon goal_id recent = (\<lambda>(cid, concept_act, _).
     concat (map (\<lambda>word_text.
                    case lookup_entry lexicon word_text of
                      None \<Rightarrow> []
                    | Some en \<Rightarrow>
                        (let base_score = concept_act * (6 / 10) + goal_match g goal_id cid in
                         [\<lparr>word = word_text, concept_id = cid, cand_activation = concept_act,
                           pos = entry_pos en,
                           score = (if word_text \<in> set recent then base_score * (3 / 10)
                                    else base_score)\<rparr>]))
                 (get_words_for_concept lexicon cid)))"

definition motor_candidates :: "lexicon \<Rightarrow> string list \<Rightarrow> node \<Rightarrow> word_candidate list" where
  "motor_candidates lexicon recent n =
     concat (map (\<lambda>word_text.
                    case lookup_entry lexicon word_text of
                      None \<Rightarrow> []
                    | Some en \<Rightarrow>
                        [\<lparr>word = word_text, concept_id = node_id n, cand_activation = activation n,
                          pos = entry_pos en,
                          score = (if word_text \<in> set recent
                                   then activation n * (5 / 10) * (3 / 10)
                                   else activation n * (5 / 10))\<rparr>])
                 (get_words_for_concept lexicon (node_id n)))"

text \<open>Step 2: the list \<open>all_candidates\<close> as it stands before the assembly loop.\<close>

definition build_candidates ::
  "brain_graph \<Rightarrow> lexicon \<Rightarrow> string \<Rightarrow> string list \<Rightarrow> word_candidate list" where
  "build_candidates g lexicon goal_id recent =
     concat (map (concept_candidates g lexicon goal_id recent) (take 25 (active_concepts g))) @
     concat (map (\<lambda>(k, n). motor_candidates lexicon recent n)
                 (filter (\<lambda>(k, n). is_active n \<and> node_type n \<in> {Motor, Lexeme}) (nodes g)))"

text \<open>Python indexing with an integer: a negative index counts from the end.\<close>

definition py_index :: "'a list \<Rightarrow> int \<Rightarrow> error + 'a" where
  "py_index xs i =
     (if 0 \<le> i \<and> i < int (length xs) then Inr (xs ! nat i)
      else if i < 0 \<and> - int (length xs) \<le> i then Inr (xs ! nat (int (length xs) + i))
      else Inl IndexError)"

text \<open>
  The state of the assembly loop. \<open>selected\<close> holds references to candidate objects of
  \<open>all_candidates\<close>, whose scores the loop goes on changing; a reference is the position
  in \<open>all_candidates\<close>. The random source is an abstract state \<open>'r\<close>; its method
  \<open>randint\<close>, of Python's standard library, is a parameter.
\<close>

record 'r motor_state =
  all_candidates :: "word_candidate list"
  selected :: "nat list"
  used_words :: "string list"
  current_pos :: string
  rng :: 'r

datatype loop_exit = Break | Continue

definition assemble_step ::
  "('r \<Rightarrow> int \<Rightarrow> int \<Rightarrow> int \<times> 'r) \<Rightarrow> int \<Rightarrow> 'r motor_state
     \<Rightarrow> error + (loop_exit \<times> 'r motor_state)" where
  "assemble_step randint max_words st =
     (let cs = all_candidates st;
          allowed_pos = (case map_of POS_TRANSITIONS (current_pos st) of
                           None \<Rightarrow> [''noun'', ''verb'', ''adj'']
                         | Some a \<Rightarrow> a);
          restricted = filter (\<lambda>i. pos (cs ! i) \<in> set allowed_pos
                                    \<and> word (cs ! i) \<notin> set (used_words st)) [0..<length cs];
          eligible = (if restricted = []
                      then filter (\<lambda>i. word (cs ! i) \<notin> set (used_words st)) [0..<length cs]
                      else restricted)
      in if eligible = [] then Inr (Break, st)
         else
           (case sorted_reverse (\<lambda>i. score (cs ! i)) eligible of
              [] \<Rightarrow> Inl IndexError
            | first # rest \<Rightarrow>
                (let top_score = score (cs ! first);
                     top_tier = filter (\<lambda>i. top_score * (85 / 100) \<le> score (cs ! i)) (first # rest);
                     pick = (if 1 < length top_tier
                             then (let (r, rng') = randint (rng st) 0 (int (length top_tier) - 1)
                                   in case py_index top_tier r of
                                        Inl err \<Rightarrow> Inl err
                                      | Inr c \<Rightarrow> Inr (c, rng'))
                             else (case top_tier of
                                     [] \<Rightarrow> Inl IndexError
                                   | c # _ \<Rightarrow> Inr (c, rng st)))
                 in case pick of
                      Inl err \<Rightarrow> Inl err
                    | Inr (chosen, rng') \<Rightarrow>
                        (let st1 = st\<lparr>selected := selected st @ [chosen],
                                      used_words := used_words st @ [word (cs ! chosen)],
                                      current_pos := pos (cs ! chosen),
                                      rng := rng'\<rparr>
                         in if current_pos st1 = ''END'' \<or> max_words \<le> int (length (selected st1))
                            then Inr (Break, st1)
                            else Inr (Continue,
                                      st1\<lparr>all_candidates :=
                                            map (\<lambda>c. if concept_id c = concept_id (cs ! chosen)
                                                      then c\<lparr>score := score c * (1 / 2)\<rparr> else c)
                                                cs\<rparr>)))))"

text \<open>\<open>for _ in range(max_words)\<close>, with the number of iterations left.\<close>

fun assemble ::
  "('r \<Rightarrow> int \<Rightarrow> int \<Rightarrow> int \<times> 'r) \<Rightarrow> int \<Rightarrow> nat \<Rightarrow> 'r motor_state \<Rightarrow> error + 'r motor_state" where
  "assemble randint max_words 0 st = Inr st"
| "assemble randint max_words (Suc k) st =
     (case assemble_step randint max_words st of
        Inl err \<Rightarrow> Inl err
      | Inr (Break, st') \<Rightarrow> Inr st'
      | Inr (Continue, st') \<Rightarrow> assemble randint max_words k st')"

fun join_words :: "string list \<Rightarrow> string" where
  "join_words [] = []"
| "join_words [w] = w"
| "join_words (w # ws) = w @ '' '' @ join_words ws"

definition generate_response ::
  "('r \<Rightarrow> int \<Rightarrow> int \<Rightarrow> int \<times> 'r) \<Rightarrow> brain_graph \<Rightarrow> lexicon \<Rightarrow> string \<Rightarrow> 'r
     \<Rightarrow> string list option \<Rightarrow> int \<Rightarrow> (error + motor_result \<times> 'r) \<times> brain_graph" where
  "generate_response randint g lexicon goal_id rng0 recent_words max_words =
     (let recent = last_twenty (case recent_words of None \<Rightarrow> [] | Some ws \<Rightarrow> ws) in
      if active_concepts g = []
      then (Inr (\<lparr>candidates_considered = [], selected_words = [],
                  final_text = ''i am processing''\<rparr>, rng0), g)
      else
        (let cands = build_candidates g lexicon goal_id recent;
             considered = sorted_reverse (\<lambda>i. score (cands ! i)) [0..<length cands]
         in case assemble randint max_words (nat max_words)
                   \<lparr>all_candidates = cands, selected = [], used_words = [],
                    current_pos = ''START'', rng = rng0\<rparr> of
              Inl err \<Rightarrow> (Inl err, g)
            | Inr st \<Rightarrow>
                (let chosen = map (\<lambda>i. all_candidates st ! i) (selected st) in
                 (Inr (\<lparr>candidates_considered = map (\<lambda>i. all_candidates st ! i) considered,
                        selected_words = chosen,
                        final_text = join_words (map word chosen)\<rparr>, rng st), g))))"

subsection \<open>One turn (\<open>ConversationEngine.process_input\<close>, steps 3 to 5)\<close>

record turn_result =
  dynamics :: dynamics_result
  goal :: goal_result
  motor :: motor_result

definition process_turn ::
  "('r \<Rightarrow> int \<Rightarrow> int \<Rightarrow> int \<times> 'r) \<Rightarrow> brain_graph \<Rightarrow> lexicon \<Rightarrow> (string \<times> real) list
     \<Rightarrow> dynamics_config \<Rightarrow> (string \<times> real) list \<Rightarrow> 'r \<Rightarrow> string list
     \<Rightarrow> (error + turn_result \<times> 'r) \<times> brain_graph" where
  "process_turn randint g lexicon combined_activations config modulators rng0 recent_words =
     (let (dynamics_result, g1) = run_dynamics g combined_activations (Some config) (Some modulators);
          (goal_res, g2) = select_goal g1
      in case goal_res of
           Inl err \<Rightarrow> (Inl err, g2)
         | Inr goal_result \<Rightarrow>
             (let goal_id = (case selected_goal goal_result of
                               None \<Rightarrow> ''goal_inform''
                             | Some s \<Rightarrow> if s = [] then ''goal_inform'' else s);
                  (motor_res, g3) = generate_response randint g2 lexicon goal_id rng0 (Some recent_words) 15
              in case motor_res of
                   Inl err \<Rightarrow> (Inl err, g3)
                 | Inr (motor_result, rng') \<Rightarrow>
                     (Inr (\<lparr>dynamics = dynamics_result, goal = goal_result, motor = motor_result\<rparr>,
                           rng'), g3)))"

subsection \<open>Notions of the statements\<close>

text \<open>The references an adjacency index holds for a key.\<close>

definition adjacency_refs :: "(string \<times> nat list) list \<Rightarrow> string \<Rightarrow> nat list" where
  "adjacency_refs d k = (case map_of d k of None \<Rightarrow> [] | Some rs \<Rightarrow> rs)"

text \<open>Repetition suppression of one candidate.\<close>

definition suppress_recent :: "string list \<Rightarrow> word_candidate \<Rightarrow> word_candidate" where
  "suppress_recent recent c =
     (if word c \<in> set recent then c\<lparr>score := score c * (3 / 10)\<rparr> else c)"



text \<open>The position of a key in a list of keys.\<close>

fun rank_of :: "'a \<Rightarrow> 'a list \<Rightarrow> nat" where
  "rank_of k [] = 0"
| "rank_of k (x # xs) = (if x = k then 0 else Suc (rank_of k xs))"

text \<open>The firing nodes of a category in the order the competition pass ranks them.\<close>

definition firing_sorted :: "brain_graph \<Rightarrow> ntype \<Rightarrow> (string \<times> node) list" where
  "firing_sorted g ty =
     sorted_reverse (\<lambda>(k, n). activation n)
       (filter (\<lambda>(k, n). is_active n) (get_nodes_by_type g ty))"

text \<open>The suppression of the node at position \<open>i\<close> among \<open>len\<close> firing nodes.\<close>

definition suppress :: "real \<Rightarrow> nat \<Rightarrow> nat \<Rightarrow> node \<Rightarrow> node" where
  "suppress strength len i m =
     m\<lparr>activation := activation m - strength * (real i / real len)\<rparr>"

text \<open>Two graphs with the same nodes, edges, insertion order and adjacency indices: they
  differ at most in the current activations and the accumulated contributions.\<close>

definition same_structure :: "brain_graph \<Rightarrow> brain_graph \<Rightarrow> bool" where
  "same_structure g1 g2 \<longleftrightarrow>
     map (\<lambda>(k, n). (k, n\<lparr>activation := 0\<rparr>)) (nodes g1) =
       map (\<lambda>(k, n). (k, n\<lparr>activation := 0\<rparr>)) (nodes g2)
     \<and> map (\<lambda>e. e\<lparr>contribution := 0\<rparr>) (edges g1) = map (\<lambda>e. e\<lparr>contribution := 0\<rparr>) (edges g2)
     \<and> outgoing g1 = outgoing g2
     \<and> incoming g1 = incoming g2"

text \<open>
  Steps 3 and 4 of \<open>generate_response\<close>, and the result it builds, for a given candidate
  list: what the function does once the candidates are scored.
\<close>

definition response_for ::
  "('r \<Rightarrow> int \<Rightarrow> int \<Rightarrow> int \<times> 'r) \<Rightarrow> brain_graph \<Rightarrow> 'r \<Rightarrow> int \<Rightarrow> word_candidate list
     \<Rightarrow> (error + motor_result \<times> 'r) \<times> brain_graph" where
  "response_for randint g rng0 max_words cands =
     (let considered = sorted_reverse (\<lambda>i. score (cands ! i)) [0..<length cands]
      in case assemble randint max_words (nat max_words)
                \<lparr>all_candidates = cands, selected = [], used_words = [],
                 current_pos = ''START'', rng = rng0\<rparr> of
           Inl err \<Rightarrow> (Inl err, g)
         | Inr st \<Rightarrow>
             (let chosen = map (\<lambda>i. all_candidates st ! i) (selected st) in
              (Inr (\<lparr>candidates_considered = map (\<lambda>i. all_candidates st ! i) considered,
                     selected_words = chosen,
                     final_text = join_words (map word chosen)\<rparr>, rng st), g)))"

subsection \<open>Example data\<close>

definition example_a :: node where
  "example_a = Node_init ''a'' Concept ''A'' 0 (1 / 20) (3 / 10)"

definition example_graph_a :: brain_graph where
  "example_graph_a = snd (add_node example_a BrainGraph_init)"

definition example_edge_ab :: edge where
  "example_edge_ab =
     \<lparr>source_id = ''a'', target_id = ''b'', edge_type = Excitatory, weight = 1 / 2,
      contribution = 0\<rparr>"

definition example_edge_aa :: edge where
  "example_edge_aa =
     \<lparr>source_id = ''a'', target_id = ''a'', edge_type = Excitatory, weight = 1 / 2,
      contribution = 0\<rparr>"

definition example_goals :: brain_graph where
  "example_goals =
     \<lparr>nodes = [(''g1'', Node_init ''g1'' Goal ''G1'' 0 (1 / 20) (1 / 5)),
               (''c1'', Node_init ''c1'' Concept ''C1'' 0 (1 / 20) (3 / 10)),
               (''g2'', Node_init ''g2'' Goal ''G2'' 0 (1 / 20) (1 / 5))],
      edges = [], outgoing = [(''g1'', []), (''c1'', []), (''g2'', [])],
      incoming = [(''g1'', []), (''c1'', []), (''g2'', [])]\<rparr>"

definition example_hot :: brain_graph where
  "example_hot =
     \<lparr>nodes = [(''h'', Node_init ''h'' Concept ''H'' 2 (1 / 20) (3 / 10))],
      edges = [], outgoing = [(''h'', [])], incoming = [(''h'', [])]\<rparr>"

definition example_hot_clamped :: brain_graph where
  "example_hot_clamped =
     \<lparr>nodes = [(''h'', (Node_init ''h'' Concept ''H'' 2 (1 / 20) (3 / 10))\<lparr>activation := 1\<rparr>)],
      edges = [], outgoing = [(''h'', [])], incoming = [(''h'', [])]\<rparr>"



definition example_randint :: "nat \<Rightarrow> int \<Rightarrow> int \<Rightarrow> int \<times> nat" where
  "example_randint r lo hi = (lo, Suc r)"

definition empty_lexicon :: lexicon where
  "empty_lexicon = \<lparr>words = [], phrases = [], synonyms = [], stopwords = [], concept_to_words = []\<rparr>"

definition example_mute :: brain_graph where
  "example_mute =
     \<lparr>nodes = [(''c'', Node_init ''c'' Concept ''C'' (1 / 2) (1 / 20) (3 / 10))],
      edges = [], outgoing = [(''c'', [])], incoming = [(''c'', [])]\<rparr>"

definition example_pair :: brain_graph where
  "example_pair =
     \<lparr>nodes = [(''a'', Node_init ''a'' Concept ''A'' 1 (1 / 20) (3 / 10)),
               (''b'', Node_init ''b'' Concept ''B'' 0 (1 / 20) (3 / 10))],
      edges = [\<lparr>source_id = ''a'', target_id = ''b'', edge_type = Excitatory, weight = 1 / 2,
                contribution = 0\<rparr>],
      outgoing = [(''a'', [0]), (''b'', [])], incoming = [(''a'', []), (''b'', [0])]\<rparr>"

definition example_x :: node where
  "example_x = Node_init ''x'' Concept ''X'' (1 / 2) (1 / 20) (3 / 10)"

definition example_y :: node where
  "example_y = Node_init ''y'' Concept ''Y'' (2 / 5) (1 / 20) (3 / 10)"

definition example_rivals :: brain_graph where
  "example_rivals =
     \<lparr>nodes = [(''x'', example_x), (''y'', example_y)],
      edges = [], outgoing = [(''x'', []), (''y'', [])], incoming = [(''x'', []), (''y'', [])]\<rparr>"

definition example_negative :: dynamics_config where
  "example_negative = \<lparr>steps = 1, inhibition_strength = - 1, competition_within_type = True\<rparr>"

definition example_rivals_after :: "real \<Rightarrow> brain_graph" where
  "example_rivals_after s =
     \<lparr>nodes = [(''x'', example_x), (''y'', example_y\<lparr>activation := 2 / 5 - s * (1 / 2)\<rparr>)],
      edges = [], outgoing = [(''x'', []), (''y'', [])], incoming = [(''x'', []), (''y'', [])]\<rparr>"

definition example_pair_used :: brain_graph where
  "example_pair_used =
     \<lparr>nodes = [(''a'', (Node_init ''a'' Concept ''A'' 1 (1 / 20) (3 / 10))\<lparr>activation := 1 / 4\<rparr>),
               (''b'', (Node_init ''b'' Concept ''B'' 0 (1 / 20) (3 / 10))\<lparr>activation := 7 / 10\<rparr>)],
      edges = [\<lparr>source_id = ''a'', target_id = ''b'', edge_type = Excitatory, weight = 1 / 2,
                contribution = 3\<rparr>],
      outgoing = [(''a'', [0]), (''b'', [])], incoming = [(''a'', []), (''b'', [0])]\<rparr>"

definition example_lexicon :: lexicon where
  "example_lexicon =
     \<lparr>words = [(''hello'', \<lparr>entry_id = ''w_hello'', entry_text = ''hello'',
                            concept_ids = [''c_greeting''], entry_pos = ''interjection''\<rparr>)],
      phrases = [], synonyms = [], stopwords = [],
      concept_to_words = [(''c_greeting'', [''hello''])]\<rparr>"

definition example_talk :: brain_graph where
  "example_talk =
     \<lparr>nodes = [(''c_greeting'', Node_init ''c_greeting'' Concept ''Greeting'' (4 / 5) (1 / 20) (3 / 10)),
               (''goal_greet'', Node_init ''goal_greet'' Goal ''Greet'' 0 (1 / 20) (1 / 5))],
      edges = [\<lparr>source_id = ''goal_greet'', target_id = ''c_greeting'', edge_type = Excitatory,
                weight = 7 / 10, contribution = 0\<rparr>],
      outgoing = [(''c_greeting'', []), (''goal_greet'', [0])],
      incoming = [(''c_greeting'', [0]), (''goal_greet'', [])]\<rparr>"

definition example_hello :: "real \<Rightarrow> word_candidate" where
  "example_hello sc =
     \<lparr>word = ''hello'', concept_id = ''c_greeting'', cand_activation = 4 / 5,
      pos = ''interjection'', score = sc\<rparr>"

text \<open>
  Twenty and twenty-one recent words, \<open>hello\<close> the oldest of them.
\<close>

definition example_twenty :: "string list" where
  "example_twenty = ''hello'' # replicate 19 ''lake''"

definition example_twenty_one :: "string list" where
  "example_twenty_one = ''hello'' # replicate 20 ''lake''"



section \<open>Graph construction\<close>

lemma map_of_None_iff: "map_of al k = None \<longleftrightarrow> k \<notin> fst ` set al"
  by (simp add: map_of_eq_None_iff)

lemma update_absent: "k \<notin> fst ` set al \<Longrightarrow> AList.update k v al = al @ [(k, v)]"
  by (induction al) auto

lemma setdefault_absent: "k \<notin> fst ` set d \<Longrightarrow> setdefault k v d = d @ [(k, v)]"
proof -
  assume a: "k \<notin> fst ` set d"
  then have "map_of d k = None" by (simp add: map_of_eq_None_iff)
  then show ?thesis using a by (simp add: setdefault_def update_absent)
qed

lemma adjacency_ok_init: "adjacency_ok BrainGraph_init"
  by (simp add: adjacency_ok_def BrainGraph_init_def)

lemma map_of_Some_key: "map_of al k = Some v \<Longrightarrow> k \<in> fst ` set al"
  by (metis map_of_eq_None_iff option.distinct(1))

lemma adjacency_ok_add_node: "adjacency_ok g \<Longrightarrow> adjacency_ok (snd (add_node n g))"
  by (auto simp: adjacency_ok_def add_node_def setdefault_def dom_update
           split: option.splits dest: map_of_Some_key)

lemma adjacency_ok_add_edge: "adjacency_ok g \<Longrightarrow> adjacency_ok (snd (add_edge e g))"
proof -
  assume ok: "adjacency_ok g"
  show ?thesis
  proof (cases "map_of (nodes g) (source_id e) = None \<or> map_of (nodes g) (target_id e) = None")
    case True
    then show ?thesis using ok by (auto simp: add_edge_def)
  next
    case False
    then obtain sn tn where ns: "map_of (nodes g) (source_id e) = Some sn"
      and nt: "map_of (nodes g) (target_id e) = Some tn" by auto
    then have s: "source_id e \<in> fst ` set (nodes g)" and t: "target_id e \<in> fst ` set (nodes g)"
      by (auto dest: map_of_Some_key)
    from s ok obtain outs where o: "map_of (outgoing g) (source_id e) = Some outs"
      by (metis adjacency_ok_def map_of_eq_None_iff not_Some_eq)
    from t ok obtain ins where i: "map_of (incoming g) (target_id e) = Some ins"
      by (metis adjacency_ok_def map_of_eq_None_iff not_Some_eq)
    have "snd (add_edge e g) =
        g\<lparr>edges := edges g @ [e],
          outgoing := AList.update (source_id e) (outs @ [length (edges g)]) (outgoing g),
          incoming := AList.update (target_id e) (ins @ [length (edges g)]) (incoming g)\<rparr>"
      using ns nt o i by (simp add: add_edge_def Let_def update_conv')
    then show ?thesis using ok s t by (auto simp: adjacency_ok_def dom_update)
  qed
qed

section \<open>The contract of graph construction\<close>

text \<open>
  C7. On a graph whose adjacency indices have an entry for every node (every graph built
  by \<open>add_node\<close> and \<open>add_edge\<close>), \<open>add_node\<close> raises the duplicate-identifier error
  exactly when the id is present and otherwise appends the node and empty outgoing and
  incoming entries; \<open>add_edge\<close> raises a dangling-reference error exactly when the source
  or the target id is absent and otherwise appends the edge to the edge list and a
  reference to it to both adjacency indices; a failing call leaves the graph unchanged.
\<close>

theorem add_node_add_edge_contract:
  assumes "adjacency_ok g"
  shows "add_node n g =
           (if node_id n \<in> fst ` set (nodes g) then (Inl (DuplicateNode (node_id n)), g)
            else (Inr (), g\<lparr>nodes := nodes g @ [(node_id n, n)],
                             outgoing := outgoing g @ [(node_id n, [])],
                             incoming := incoming g @ [(node_id n, [])]\<rparr>))
       \<and> add_edge e g =
           (if source_id e \<notin> fst ` set (nodes g) then (Inl (MissingSource (source_id e)), g)
            else if target_id e \<notin> fst ` set (nodes g) then (Inl (MissingTarget (target_id e)), g)
            else (Inr (),
                  g\<lparr>edges := edges g @ [e],
                    outgoing := AList.update (source_id e)
                                  (adjacency_refs (outgoing g) (source_id e) @ [length (edges g)])
                                  (outgoing g),
                    incoming := AList.update (target_id e)
                                  (adjacency_refs (incoming g) (target_id e) @ [length (edges g)])
                                  (incoming g)\<rparr>))"
proof
  show "add_node n g =
           (if node_id n \<in> fst ` set (nodes g) then (Inl (DuplicateNode (node_id n)), g)
            else (Inr (), g\<lparr>nodes := nodes g @ [(node_id n, n)],
                             outgoing := outgoing g @ [(node_id n, [])],
                             incoming := incoming g @ [(node_id n, [])]\<rparr>))"
  proof (cases "node_id n \<in> fst ` set (nodes g)")
    case True
    then have "map_of (nodes g) (node_id n) \<noteq> None" by (simp add: map_of_eq_None_iff)
    then show ?thesis using True by (simp add: add_node_def)
  next
    case False
    then have "map_of (nodes g) (node_id n) = None" by (simp add: map_of_eq_None_iff)
    moreover from False assms have "node_id n \<notin> fst ` set (outgoing g)"
      and "node_id n \<notin> fst ` set (incoming g)" by (simp_all add: adjacency_ok_def)
    ultimately show ?thesis using False
      by (simp add: add_node_def setdefault_absent update_absent)
  qed
next
  show "add_edge e g =
           (if source_id e \<notin> fst ` set (nodes g) then (Inl (MissingSource (source_id e)), g)
            else if target_id e \<notin> fst ` set (nodes g) then (Inl (MissingTarget (target_id e)), g)
            else (Inr (),
                  g\<lparr>edges := edges g @ [e],
                    outgoing := AList.update (source_id e)
                                  (adjacency_refs (outgoing g) (source_id e) @ [length (edges g)])
                                  (outgoing g),
                    incoming := AList.update (target_id e)
                                  (adjacency_refs (incoming g) (target_id e) @ [length (edges g)])
                                  (incoming g)\<rparr>))"
  proof (cases "source_id e \<in> fst ` set (nodes g) \<and> target_id e \<in> fst ` set (nodes g)")
    case False
    then show ?thesis by (auto simp: add_edge_def map_of_eq_None_iff)
  next
    case True
    then obtain sn tn where ns: "map_of (nodes g) (source_id e) = Some sn"
      and nt: "map_of (nodes g) (target_id e) = Some tn"
      by (metis map_of_eq_None_iff not_Some_eq)
    from True assms obtain outs where o: "map_of (outgoing g) (source_id e) = Some outs"
      by (metis adjacency_ok_def map_of_eq_None_iff not_Some_eq)
    from True assms obtain ins where i: "map_of (incoming g) (target_id e) = Some ins"
      by (metis adjacency_ok_def map_of_eq_None_iff not_Some_eq)
    show ?thesis using True ns nt o i
      by (simp add: add_edge_def Let_def adjacency_refs_def)
  qed
qed

theorem add_node_add_edge_contract_witness:
  "adjacency_ok example_graph_a
   \<and> add_node example_a example_graph_a = (Inl (DuplicateNode ''a''), example_graph_a)
   \<and> add_edge example_edge_ab example_graph_a = (Inl (MissingTarget ''b''), example_graph_a)
   \<and> add_edge example_edge_aa example_graph_a =
       (Inr (), example_graph_a\<lparr>edges := [example_edge_aa], outgoing := [(''a'', [0])],
                                incoming := [(''a'', [0])]\<rparr>)"
proof -
  have ok: "adjacency_ok example_graph_a"
    unfolding example_graph_a_def by (rule adjacency_ok_add_node [OF adjacency_ok_init])
  have g: "example_graph_a =
      \<lparr>nodes = [(''a'', example_a)], edges = [], outgoing = [(''a'', [])], incoming = [(''a'', [])]\<rparr>"
    by (simp add: example_graph_a_def add_node_def BrainGraph_init_def example_a_def
        Node_init_def setdefault_def)
  show ?thesis
    using ok add_node_add_edge_contract [OF ok, of example_a example_edge_ab]
      add_node_add_edge_contract [OF ok, of example_a example_edge_aa]
    by (simp add: g example_a_def Node_init_def example_edge_ab_def example_edge_aa_def
        adjacency_refs_def)
qed

section \<open>The stable descending sort\<close>

lemma mset_insort_reverse: "mset (insort_reverse f x xs) = add_mset x (mset xs)"
  by (induction xs) auto

lemma mset_sorted_reverse: "mset (sorted_reverse f xs) = mset xs"
  by (induction xs) (auto simp: sorted_reverse_def mset_insort_reverse)

lemma set_sorted_reverse: "set (sorted_reverse f xs) = set xs"
  by (metis mset_sorted_reverse set_mset_mset)

lemma length_sorted_reverse: "length (sorted_reverse f xs) = length xs"
  by (metis mset_sorted_reverse size_mset)

lemma sorted_reverse_Nil_iff: "sorted_reverse f xs = [] \<longleftrightarrow> xs = []"
  by (metis length_sorted_reverse length_0_conv)

lemma set_insort_reverse: "set (insort_reverse f x xs) = insert x (set xs)"
  by (metis mset_insort_reverse set_mset_add_mset_insert set_mset_mset)

lemma descending_insort_reverse:
  "sorted_wrt (\<lambda>a b. f b \<le> f a) xs \<Longrightarrow> sorted_wrt (\<lambda>a b. f b \<le> f a) (insort_reverse f x xs)"
  by (induction xs) (auto simp: set_insort_reverse)

lemma descending_sorted_reverse: "sorted_wrt (\<lambda>a b. f b \<le> f a) (sorted_reverse f xs)"
  by (induction xs) (auto simp: sorted_reverse_def descending_insort_reverse)

lemma filter_insort_reverse:
  "filter (\<lambda>y. f y = v) (insort_reverse f x xs) =
     (if f x = v then x # filter (\<lambda>y. f y = v) xs else filter (\<lambda>y. f y = v) xs)"
  by (induction xs) auto

lemma stable_sorted_reverse:
  "filter (\<lambda>y. f y = v) (sorted_reverse f xs) = filter (\<lambda>y. f y = v) xs"
  by (induction xs) (auto simp: sorted_reverse_def filter_insort_reverse)

section \<open>Goal selection\<close>

text \<open>
  C8. When the graph has a goal node, \<open>select_goal\<close> returns without raising; its
  candidate list holds the (id, activation) pairs of all goal nodes, in descending order
  of activation, pairs of equal activation in the insertion order of their nodes; the
  selected goal is the first entry, whatever its activation. When the graph has no goal
  node, it returns no selection and the empty candidate list, without raising.
\<close>

theorem select_goal_contract:
  "(get_nodes_by_type g Goal = [] \<longrightarrow> select_goal g = (Inr GoalResult_init, g))
   \<and> (get_nodes_by_type g Goal \<noteq> [] \<longrightarrow>
        (\<exists>r. select_goal g = (Inr r, g)
           \<and> mset (candidates r) = mset (goal_candidates g)
           \<and> sorted_wrt (\<lambda>a b. snd b \<le> snd a) (candidates r)
           \<and> (\<forall>v. filter (\<lambda>c. snd c = v) (candidates r) = filter (\<lambda>c. snd c = v) (goal_candidates g))
           \<and> candidates r \<noteq> []
           \<and> selected_goal r = Some (fst (hd (candidates r)))
           \<and> selected_activation r = snd (hd (candidates r))))"
proof (intro conjI impI)
  assume "get_nodes_by_type g Goal = []"
  then show "select_goal g = (Inr GoalResult_init, g)" by (simp add: select_goal_def)
next
  assume ne: "get_nodes_by_type g Goal \<noteq> []"
  let ?cs = "sorted_reverse snd (goal_candidates g)"
  from ne have "goal_candidates g \<noteq> []" by (simp add: goal_candidates_def)
  then have "?cs \<noteq> []" by (simp add: sorted_reverse_Nil_iff)
  then obtain c rest where cs: "?cs = c # rest" by (cases ?cs) auto
  have "select_goal g =
      (Inr \<lparr>candidates = ?cs, selected_goal = Some (fst c), selected_activation = snd c\<rparr>, g)"
    using ne cs by (simp add: select_goal_def goal_candidates_def)
  moreover have "mset ?cs = mset (goal_candidates g)" by (rule mset_sorted_reverse)
  moreover have "sorted_wrt (\<lambda>a b. snd b \<le> snd a) ?cs" by (rule descending_sorted_reverse)
  moreover have "\<forall>v. filter (\<lambda>c. snd c = v) ?cs = filter (\<lambda>c. snd c = v) (goal_candidates g)"
    by (simp add: stable_sorted_reverse)
  ultimately show "\<exists>r. select_goal g = (Inr r, g)
           \<and> mset (candidates r) = mset (goal_candidates g)
           \<and> sorted_wrt (\<lambda>a b. snd b \<le> snd a) (candidates r)
           \<and> (\<forall>v. filter (\<lambda>c. snd c = v) (candidates r) = filter (\<lambda>c. snd c = v) (goal_candidates g))
           \<and> candidates r \<noteq> []
           \<and> selected_goal r = Some (fst (hd (candidates r)))
           \<and> selected_activation r = snd (hd (candidates r))"
    using cs by simp
qed

theorem select_goal_contract_witness:
  "get_nodes_by_type example_goals Goal \<noteq> []
   \<and> select_goal example_goals =
       (Inr \<lparr>candidates = [(''g1'', 0), (''g2'', 0)], selected_goal = Some ''g1'',
             selected_activation = 0\<rparr>, example_goals)
   \<and> get_nodes_by_type example_graph_a Goal = []
   \<and> select_goal example_graph_a = (Inr GoalResult_init, example_graph_a)"
proof -
  have a: "get_nodes_by_type example_goals Goal \<noteq> []"
    by (simp add: get_nodes_by_type_def example_goals_def Node_init_def)
  have b: "get_nodes_by_type example_graph_a Goal = []"
    by (simp add: get_nodes_by_type_def example_graph_a_def add_node_def BrainGraph_init_def
        example_a_def Node_init_def)
  from select_goal_contract [of example_goals] a obtain r where
    r: "select_goal example_goals = (Inr r, example_goals)"
      "\<forall>v. filter (\<lambda>c. snd c = v) (candidates r) = filter (\<lambda>c. snd c = v) (goal_candidates example_goals)"
      "mset (candidates r) = mset (goal_candidates example_goals)"
      "selected_goal r = Some (fst (hd (candidates r)))"
      "selected_activation r = snd (hd (candidates r))"
    by blast
  have "select_goal example_goals =
       (Inr \<lparr>candidates = [(''g1'', 0), (''g2'', 0)], selected_goal = Some ''g1'',
             selected_activation = 0\<rparr>, example_goals)"
    by (simp add: select_goal_def get_nodes_by_type_def example_goals_def Node_init_def
        sorted_reverse_def)
  then show ?thesis using a b select_goal_contract [of example_graph_a] r by simp
qed

section \<open>The clamp invariant\<close>

lemma nodes_clamp_pass: "nodes (clamp_pass g) = map (\<lambda>(k, n). (k, clamp n)) (nodes g)"
  by (simp add: clamp_pass_def map_nodes_def)

lemma clamp_range: "0 \<le> activation (clamp n) \<and> activation (clamp n) \<le> 1"
  by (simp add: clamp_def)

lemma simulation_step_clamped:
  "(k, m) \<in> set (nodes (fst (simulation_step config cur step g)))
     \<Longrightarrow> 0 \<le> activation m \<and> activation m \<le> 1"
  by (auto simp: simulation_step_def Let_def nodes_clamp_pass clamp_range)

lemma simulation_step_record:
  "(i, a) \<in> set (top_active (snd (simulation_step config cur step g))) \<Longrightarrow> 0 \<le> a \<and> a \<le> 1"
proof -
  assume "(i, a) \<in> set (top_active (snd (simulation_step config cur step g)))"
  then have "(i, a) \<in> set (map (\<lambda>(k, n). (node_id n, activation n))
       (filter (\<lambda>(k, n). is_active n) (nodes (fst (simulation_step config cur step g)))))"
    by (auto simp: simulation_step_def Let_def record_step_def set_sorted_reverse
        dest!: in_set_takeD)
  then obtain k n where "(k, n) \<in> set (nodes (fst (simulation_step config cur step g)))"
    and "a = activation n" by auto
  then show ?thesis using simulation_step_clamped by blast
qed

lemma dynamics_loop_Suc:
  "dynamics_loop config cur (Suc n) g =
     (let (g1, recs) = dynamics_loop config cur n g;
          (g2, r) = simulation_step config cur n g1
      in (g2, recs @ [r]))"
  by (simp add: dynamics_loop_def split: prod.splits)

lemma dynamics_loop_0: "dynamics_loop config cur 0 g = (g, [])"
  by (simp add: dynamics_loop_def)

lemma dynamics_loop_records:
  "r \<in> set (snd (dynamics_loop config cur n g)) \<Longrightarrow> (i, a) \<in> set (top_active r)
     \<Longrightarrow> 0 \<le> a \<and> a \<le> 1"
proof (induction n arbitrary: r)
  case 0
  then show ?case by (simp add: dynamics_loop_0)
next
  case (Suc n)
  obtain g1 recs where l: "dynamics_loop config cur n g = (g1, recs)" by fastforce
  from Suc.prems(1) l have "r \<in> set recs \<or> r = snd (simulation_step config cur n g1)"
    by (auto simp: dynamics_loop_Suc split: prod.splits)
  then show ?case
  proof
    assume "r \<in> set recs"
    then show ?thesis using Suc.IH [of r] Suc.prems(2) l by simp
  next
    assume "r = snd (simulation_step config cur n g1)"
    then show ?thesis using Suc.prems(2) simulation_step_record by blast
  qed
qed

lemma dynamics_loop_clamped:
  "0 < n \<Longrightarrow> (k, m) \<in> set (nodes (fst (dynamics_loop config cur n g)))
     \<Longrightarrow> 0 \<le> activation m \<and> activation m \<le> 1"
proof (cases n)
  case 0
  assume "0 < n" with 0 show ?thesis by simp
next
  case (Suc j)
  assume a: "(k, m) \<in> set (nodes (fst (dynamics_loop config cur n g)))"
  obtain g1 recs where l: "dynamics_loop config cur j g = (g1, recs)" by fastforce
  from a Suc l have "(k, m) \<in> set (nodes (fst (simulation_step config cur j g1)))"
    by (simp add: dynamics_loop_Suc split: prod.splits)
  then show ?thesis by (rule simulation_step_clamped)
qed

text \<open>
  C3. After every completed step of the simulation loop every node's activation lies in
  \<open>[0, 1]\<close>, for every graph, configuration and curiosity value; so does every
  activation written to a step record, and every entry of the final activation snapshot
  of a run of at least one step.
\<close>

theorem clamp_invariant:
  "(0 < n \<longrightarrow>
      (\<forall>(k, m) \<in> set (nodes (fst (dynamics_loop config cur n g))).
          0 \<le> activation m \<and> activation m \<le> 1))
   \<and> (\<forall>r \<in> set (snd (dynamics_loop config cur n g)).
        \<forall>(i, a) \<in> set (top_active r). 0 \<le> a \<and> a \<le> 1)
   \<and> (0 < steps (case config_opt of None \<Rightarrow> DynamicsConfig_init | Some c \<Rightarrow> c) \<longrightarrow>
        (\<forall>(k, a) \<in> set (final_activations (fst (run_dynamics g0 init config_opt mods_opt))).
            0 \<le> a \<and> a \<le> 1))"
proof (intro conjI impI)
  assume "0 < n"
  then show "\<forall>(k, m) \<in> set (nodes (fst (dynamics_loop config cur n g))).
          0 \<le> activation m \<and> activation m \<le> 1"
    using dynamics_loop_clamped by blast
next
  show "\<forall>r \<in> set (snd (dynamics_loop config cur n g)).
        \<forall>(i, a) \<in> set (top_active r). 0 \<le> a \<and> a \<le> 1"
    using dynamics_loop_records by blast
next
  let ?c = "case config_opt of None \<Rightarrow> DynamicsConfig_init | Some c \<Rightarrow> c"
  assume "0 < steps ?c"
  then have pos: "0 < nat (steps ?c)" by simp
  show "\<forall>(k, a) \<in> set (final_activations (fst (run_dynamics g0 init config_opt mods_opt))).
            0 \<le> a \<and> a \<le> 1"
  proof (clarify)
    fix k a assume "(k, a) \<in> set (final_activations (fst (run_dynamics g0 init config_opt mods_opt)))"
    then obtain curm gi m where
      "(k, m) \<in> set (nodes (fst (dynamics_loop ?c curm (nat (steps ?c)) gi)))" "a = activation m"
      by (auto simp: run_dynamics_def Let_def case_prod_unfold)
    then show "0 \<le> a \<and> a \<le> 1" using dynamics_loop_clamped [OF pos] by blast
  qed
qed

lemma hot_decay: "decay_pass example_hot = example_hot"
  by (simp add: decay_pass_def map_nodes_def example_hot_def Node_init_def decay_node_def)

lemma hot_spread: "spread_pass cur example_hot = example_hot"
  by (simp add: spread_pass_def apply_deltas_def example_hot_def)

lemma hot_compete: "compete_type s ty example_hot = example_hot"
  by (simp add: compete_type_def get_nodes_by_type_def example_hot_def)

lemma hot_competition: "competition config example_hot = example_hot"
  by (simp add: competition_def VALID_TYPES_def hot_compete)

lemma hot_clamp: "clamp_pass example_hot = example_hot_clamped"
  by (simp add: clamp_pass_def map_nodes_def example_hot_def example_hot_clamped_def
      Node_init_def clamp_def)

lemma hot_record:
  "record_step 0 example_hot_clamped = \<lparr>step_num = 0, top_active = [(''h'', 1)]\<rparr>"
  by (simp add: record_step_def example_hot_clamped_def Node_init_def is_active_def
      sorted_reverse_def)

lemma hot_step:
  "simulation_step config cur 0 example_hot =
     (example_hot_clamped, \<lparr>step_num = 0, top_active = [(''h'', 1)]\<rparr>)"
  by (simp add: simulation_step_def hot_decay hot_spread hot_competition hot_clamp hot_record)

lemma example_hot_step:
  "dynamics_loop config cur 1 example_hot =
     (example_hot_clamped, [\<lparr>step_num = 0, top_active = [(''h'', 1)]\<rparr>])"
  by (simp add: dynamics_loop_Suc dynamics_loop_0 hot_step)

theorem clamp_invariant_witness:
  "(0::nat) < 1
   \<and> dynamics_loop DynamicsConfig_init (1 / 2) 1 example_hot =
       (example_hot_clamped, [\<lparr>step_num = 0, top_active = [(''h'', 1)]\<rparr>])
   \<and> (''h'', (Node_init ''h'' Concept ''H'' 2 (1 / 20) (3 / 10))\<lparr>activation := 1\<rparr>)
        \<in> set (nodes (fst (dynamics_loop DynamicsConfig_init (1 / 2) 1 example_hot)))
   \<and> 0 \<le> activation ((Node_init ''h'' Concept ''H'' 2 (1 / 20) (3 / 10))\<lparr>activation := 1\<rparr>)
   \<and> activation ((Node_init ''h'' Concept ''H'' 2 (1 / 20) (3 / 10))\<lparr>activation := 1\<rparr>) \<le> 1
   \<and> 0 < steps DynamicsConfig_init"
proof -
  have a: "(0::nat) < 1" by simp
  have d: "0 < steps DynamicsConfig_init" by (simp add: DynamicsConfig_init_def)
  have m: "(''h'', (Node_init ''h'' Concept ''H'' 2 (1 / 20) (3 / 10))\<lparr>activation := 1\<rparr>)
        \<in> set (nodes (fst (dynamics_loop DynamicsConfig_init (1 / 2) 1 example_hot)))"
    by (simp only: example_hot_step fst_conv) (simp add: example_hot_clamped_def)
  note c = clamp_invariant [of 1 DynamicsConfig_init "1 / 2" example_hot None example_hot "[]" None]
  from c a have "\<forall>(k, m) \<in> set (nodes (fst (dynamics_loop DynamicsConfig_init (1 / 2) 1 example_hot))).
          0 \<le> activation m \<and> activation m \<le> 1" by blast
  with m have r: "0 \<le> activation ((Node_init ''h'' Concept ''H'' 2 (1 / 20) (3 / 10))\<lparr>activation := 1\<rparr>)
    \<and> activation ((Node_init ''h'' Concept ''H'' 2 (1 / 20) (3 / 10))\<lparr>activation := 1\<rparr>) \<le> 1"
    by blast
  show ?thesis by (intro conjI a d m example_hot_step r [THEN conjunct1] r [THEN conjunct2])
qed

section \<open>The fallback utterance\<close>

lemma assemble_no_candidates:
  "all_candidates st = [] \<Longrightarrow> assemble randint max_words k st = Inr st"
  by (cases k) (simp_all add: assemble_step_def)

lemma generate_response_no_candidates:
  assumes "active_concepts g \<noteq> []"
    and "build_candidates g lexicon goal_id (last_twenty (case rw of None \<Rightarrow> [] | Some ws \<Rightarrow> ws)) = []"
  shows "generate_response randint g lexicon goal_id rng0 rw max_words =
     (Inr (\<lparr>candidates_considered = [], selected_words = [], final_text = []\<rparr>, rng0), g)"
  using assms
  by (simp add: generate_response_def Let_def assemble_no_candidates sorted_reverse_def)

text \<open>
  C2 (amended). \<open>generate_response\<close> returns the fallback utterance
  \<open>"i am processing"\<close>, with no candidate and no selected word, exactly on its guard:
  when no concept, topic or emotion node fires. When the candidate list built by steps 1
  and 2 is empty, generation stops without raising and selects no word; the text is then
  the fallback utterance if no concept, topic or emotion node fires, and the empty string
  otherwise.
\<close>

theorem fallback_contract:
  "(active_concepts g = [] \<longrightarrow>
      generate_response randint g lexicon goal_id rng0 rw max_words =
        (Inr (\<lparr>candidates_considered = [], selected_words = [],
               final_text = ''i am processing''\<rparr>, rng0), g))
   \<and> (build_candidates g lexicon goal_id (last_twenty (case rw of None \<Rightarrow> [] | Some ws \<Rightarrow> ws)) = [] \<longrightarrow>
      generate_response randint g lexicon goal_id rng0 rw max_words =
        (Inr (\<lparr>candidates_considered = [], selected_words = [],
               final_text = (if active_concepts g = [] then ''i am processing'' else [])\<rparr>,
              rng0), g))"
proof (intro conjI impI)
  assume "active_concepts g = []"
  then show "generate_response randint g lexicon goal_id rng0 rw max_words =
        (Inr (\<lparr>candidates_considered = [], selected_words = [],
               final_text = ''i am processing''\<rparr>, rng0), g)"
    by (simp add: generate_response_def)
next
  assume b: "build_candidates g lexicon goal_id (last_twenty (case rw of None \<Rightarrow> [] | Some ws \<Rightarrow> ws)) = []"
  show "generate_response randint g lexicon goal_id rng0 rw max_words =
        (Inr (\<lparr>candidates_considered = [], selected_words = [],
               final_text = (if active_concepts g = [] then ''i am processing'' else [])\<rparr>,
              rng0), g)"
  proof (cases "active_concepts g = []")
    case True
    then show ?thesis by (simp add: generate_response_def)
  next
    case False
    then show ?thesis using generate_response_no_candidates [OF False b] by simp
  qed
qed

lemma mute_active: "active_concepts example_mute = [(''c'', 1 / 2, 1)]"
  by (simp add: active_concepts_def example_mute_def Node_init_def is_active_def sorted_reverse_def)

lemma mute_candidates: "build_candidates example_mute empty_lexicon goal_id recent = []"
  by (simp add: build_candidates_def mute_active concept_candidates_def get_words_for_concept_def
      empty_lexicon_def)
    (simp add: example_mute_def Node_init_def)

text \<open>
  The specification's sentence fails for a firing concept node that has no vocabulary: the
  candidate list is empty and the text is the empty string.
\<close>

theorem fallback_counterexample:
  "build_candidates example_mute empty_lexicon ''goal_inform'' (last_twenty []) = []
   \<and> generate_response example_randint example_mute empty_lexicon ''goal_inform'' (0::nat) None 15 =
       (Inr (\<lparr>candidates_considered = [], selected_words = [], final_text = []\<rparr>, 0), example_mute)
   \<and> final_text \<lparr>candidates_considered = [], selected_words = [], final_text = []\<rparr>
       \<noteq> ''i am processing''"
proof -
  have a: "active_concepts example_mute \<noteq> []" by (simp add: mute_active)
  have b: "build_candidates example_mute empty_lexicon ''goal_inform''
             (last_twenty (case None of None \<Rightarrow> [] | Some ws \<Rightarrow> ws)) = []"
    by (rule mute_candidates)
  show ?thesis using generate_response_no_candidates [OF a b] mute_candidates by simp
qed

lemma graph_a_active: "active_concepts example_graph_a = []"
  by (simp add: active_concepts_def example_graph_a_def add_node_def BrainGraph_init_def
      example_a_def Node_init_def is_active_def sorted_reverse_def)

theorem fallback_contract_witness:
  "active_concepts example_graph_a = []
   \<and> generate_response example_randint example_graph_a empty_lexicon ''goal_inform'' (0::nat) None 15 =
       (Inr (\<lparr>candidates_considered = [], selected_words = [],
              final_text = ''i am processing''\<rparr>, 0), example_graph_a)
   \<and> build_candidates example_mute empty_lexicon ''goal_inform''
        (last_twenty (case None of None \<Rightarrow> [] | Some ws \<Rightarrow> ws)) = []
   \<and> active_concepts example_mute \<noteq> []
   \<and> generate_response example_randint example_mute empty_lexicon ''goal_inform'' (0::nat) None 15 =
       (Inr (\<lparr>candidates_considered = [], selected_words = [], final_text = []\<rparr>, 0), example_mute)"
proof -
  have a: "active_concepts example_mute \<noteq> []" by (simp add: mute_active)
  have b: "build_candidates example_mute empty_lexicon ''goal_inform''
             (last_twenty (case None of None \<Rightarrow> [] | Some ws \<Rightarrow> ws)) = []"
    by (rule mute_candidates)
  show ?thesis
    using a b graph_a_active
      fallback_contract [of example_graph_a example_randint empty_lexicon "''goal_inform''" 0 None 15]
      fallback_contract [of example_mute example_randint empty_lexicon "''goal_inform''" 0 None 15]
    by simp
qed

section \<open>The frame of goal selection and generation\<close>

text \<open>
  C9. \<open>select_goal\<close> and \<open>generate_response\<close> leave the graph as they found it: nodes,
  edges and both adjacency indices, with every field of every node and edge.
\<close>

theorem graph_unchanged:
  "snd (select_goal g) = g
   \<and> snd (generate_response randint g lexicon goal_id rng0 rw max_words) = g"
  by (simp add: select_goal_def generate_response_def Let_def split: list.splits sum.splits)

section \<open>Repetition suppression\<close>

lemma concept_candidates_recent:
  "concept_candidates g lexicon goal_id recent t =
     map (suppress_recent recent) (concept_candidates g lexicon goal_id [] t)"
proof (cases t)
  case (fields cid act pri)
  have "(case lookup_entry lexicon w of
           None \<Rightarrow> []
         | Some en \<Rightarrow>
             (let base_score = act * (6 / 10) + goal_match g goal_id cid in
              [\<lparr>word = w, concept_id = cid, cand_activation = act, pos = entry_pos en,
                score = (if w \<in> set recent then base_score * (3 / 10) else base_score)\<rparr>])) =
        map (suppress_recent recent)
          (case lookup_entry lexicon w of
             None \<Rightarrow> []
           | Some en \<Rightarrow>
               (let base_score = act * (6 / 10) + goal_match g goal_id cid in
                [\<lparr>word = w, concept_id = cid, cand_activation = act, pos = entry_pos en,
                  score = (if w \<in> set [] then base_score * (3 / 10) else base_score)\<rparr>]))" for w
    by (simp add: suppress_recent_def Let_def split: option.splits)
  then show ?thesis
    by (simp add: fields concept_candidates_def map_concat comp_def)
qed

lemma motor_candidates_recent:
  "motor_candidates lexicon recent n =
     map (suppress_recent recent) (motor_candidates lexicon [] n)"
proof -
  have "(case lookup_entry lexicon w of
           None \<Rightarrow> []
         | Some en \<Rightarrow>
             [\<lparr>word = w, concept_id = node_id n, cand_activation = activation n,
               pos = entry_pos en,
               score = (if w \<in> set recent then activation n * (5 / 10) * (3 / 10)
                        else activation n * (5 / 10))\<rparr>]) =
        map (suppress_recent recent)
          (case lookup_entry lexicon w of
             None \<Rightarrow> []
           | Some en \<Rightarrow>
               [\<lparr>word = w, concept_id = node_id n, cand_activation = activation n,
                 pos = entry_pos en,
                 score = (if w \<in> set [] then activation n * (5 / 10) * (3 / 10)
                          else activation n * (5 / 10))\<rparr>])" for w
    by (simp add: suppress_recent_def split: option.splits)
  then show ?thesis
    by (simp add: motor_candidates_def map_concat comp_def)
qed

lemma build_candidates_recent:
  "build_candidates g lexicon goal_id recent =
     map (suppress_recent recent) (build_candidates g lexicon goal_id [])"
proof -
  have a: "map (concept_candidates g lexicon goal_id recent) xs =
      map (\<lambda>t. map (suppress_recent recent) (concept_candidates g lexicon goal_id [] t)) xs" for xs
    by (simp add: concept_candidates_recent [of g lexicon goal_id recent])
  have b: "map (\<lambda>(k, n). motor_candidates lexicon recent n) ys =
      map (\<lambda>(k, n). map (suppress_recent recent) (motor_candidates lexicon [] n)) ys" for ys :: "(string \<times> node) list"
    by (simp add: motor_candidates_recent [of lexicon recent])
  show ?thesis
    unfolding build_candidates_def a b
    by (simp add: map_concat comp_def case_prod_unfold)
qed

lemma generate_response_for:
  "generate_response randint g lexicon goal_id rng0 recent_words max_words =
     (if active_concepts g = []
      then (Inr (\<lparr>candidates_considered = [], selected_words = [],
                  final_text = ''i am processing''\<rparr>, rng0), g)
      else response_for randint g rng0 max_words
             (build_candidates g lexicon goal_id
                (last_twenty (case recent_words of None \<Rightarrow> [] | Some ws \<Rightarrow> ws))))"
  by (simp add: generate_response_def response_for_def Let_def)

lemma build_candidates_set:
  "set r1 = set r2 \<Longrightarrow>
     build_candidates g lexicon goal_id r1 = build_candidates g lexicon goal_id r2"
  by (simp add: build_candidates_recent [of g lexicon goal_id r1]
      build_candidates_recent [of g lexicon goal_id r2] suppress_recent_def [abs_def])

text \<open>
  C10. \<open>generate_response\<close> applies the multiplier \<open>0.3\<close> exactly to the candidates whose
  word occurs among the last twenty entries of \<open>recent_words\<close>: a call with firing
  concepts returns what steps 3 and 4 make of the candidates built for no recent words
  at all, with the score of a candidate multiplied by \<open>0.3\<close> if its word is one of the
  last twenty entries and left as it is otherwise. So two calls that agree on the last
  twenty entries return the same candidates and scores, the same selected words and the
  same text, and leaving \<open>recent_words\<close> out is passing the empty list.
\<close>

theorem recent_words_window:
  "generate_response randint g lexicon goal_id rng0 (Some rw) max_words =
     (if active_concepts g = []
      then (Inr (\<lparr>candidates_considered = [], selected_words = [],
                  final_text = ''i am processing''\<rparr>, rng0), g)
      else response_for randint g rng0 max_words
             (map (\<lambda>c. if word c \<in> set (drop (length rw - 20) rw)
                       then c\<lparr>score := score c * (3 / 10)\<rparr> else c)
                  (build_candidates g lexicon goal_id [])))
   \<and> (drop (length rw1 - 20) rw1 = drop (length rw2 - 20) rw2 \<longrightarrow>
        generate_response randint g lexicon goal_id rng0 (Some rw1) max_words =
        generate_response randint g lexicon goal_id rng0 (Some rw2) max_words)
   \<and> generate_response randint g lexicon goal_id rng0 None max_words =
       generate_response randint g lexicon goal_id rng0 (Some []) max_words"
proof (intro conjI impI)
  show "generate_response randint g lexicon goal_id rng0 (Some rw) max_words =
     (if active_concepts g = []
      then (Inr (\<lparr>candidates_considered = [], selected_words = [],
                  final_text = ''i am processing''\<rparr>, rng0), g)
      else response_for randint g rng0 max_words
             (map (\<lambda>c. if word c \<in> set (drop (length rw - 20) rw)
                       then c\<lparr>score := score c * (3 / 10)\<rparr> else c)
                  (build_candidates g lexicon goal_id [])))"
    using build_candidates_recent [of g lexicon goal_id "drop (length rw - 20) rw"]
    by (simp add: generate_response_for last_twenty_def suppress_recent_def [abs_def])
next
  assume "drop (length rw1 - 20) rw1 = drop (length rw2 - 20) rw2"
  then have "set (drop (length rw1 - 20) rw1) = set (drop (length rw2 - 20) rw2)" by simp
  then have "build_candidates g lexicon goal_id (last_twenty rw1) =
      build_candidates g lexicon goal_id (last_twenty rw2)"
    unfolding last_twenty_def by (rule build_candidates_set)
  then show "generate_response randint g lexicon goal_id rng0 (Some rw1) max_words =
        generate_response randint g lexicon goal_id rng0 (Some rw2) max_words"
    by (simp add: generate_response_for)
next
  show "generate_response randint g lexicon goal_id rng0 None max_words =
       generate_response randint g lexicon goal_id rng0 (Some []) max_words"
    by (simp add: generate_response_for)
qed

lemma talk_active: "active_concepts example_talk = [(''c_greeting'', 4 / 5, 1)]"
  by (simp add: active_concepts_def example_talk_def Node_init_def is_active_def sorted_reverse_def)

lemma talk_goal_match: "goal_match example_talk ''goal_greet'' ''c_greeting'' = 7 / 25"
  by (simp add: goal_match_def get_node_def get_outgoing_def example_talk_def Node_init_def
      GOAL_CONCEPT_BOOST_def)

lemma talk_motor:
  "filter (\<lambda>(k, n). is_active n \<and> node_type n \<in> {Motor, Lexeme}) (nodes example_talk) = []"
  by (simp add: example_talk_def Node_init_def)

lemma talk_candidates:
  "build_candidates example_talk example_lexicon ''goal_greet'' [] = [example_hello (19 / 25)]"
  by (simp only: build_candidates_def talk_active talk_motor)
    (simp add: concept_candidates_def get_words_for_concept_def lookup_entry_def
      lookup_word_def example_lexicon_def talk_goal_match example_hello_def)

lemma talk_step1:
  "0 \<le> sc \<Longrightarrow> assemble_step example_randint 15
     \<lparr>all_candidates = [example_hello sc], selected = [], used_words = [],
      current_pos = ''START'', rng = (0::nat)\<rparr> =
   Inr (Continue,
     \<lparr>all_candidates = [example_hello (sc * (1 / 2))], selected = [0], used_words = [''hello''],
      current_pos = ''interjection'', rng = 0\<rparr>)"
  by (simp add: assemble_step_def POS_TRANSITIONS_def example_hello_def sorted_reverse_def Let_def)

lemma talk_step2:
  "assemble_step example_randint 15
     \<lparr>all_candidates = [example_hello sc], selected = [0], used_words = [''hello''],
      current_pos = ''interjection'', rng = (0::nat)\<rparr> =
   Inr (Break,
     \<lparr>all_candidates = [example_hello sc], selected = [0], used_words = [''hello''],
      current_pos = ''interjection'', rng = 0\<rparr>)"
  by (simp add: assemble_step_def POS_TRANSITIONS_def example_hello_def Let_def)

lemma talk_assemble:
  "0 \<le> sc \<Longrightarrow> assemble example_randint 15 (Suc (Suc k))
     \<lparr>all_candidates = [example_hello sc], selected = [], used_words = [],
      current_pos = ''START'', rng = (0::nat)\<rparr> =
   Inr \<lparr>all_candidates = [example_hello (sc * (1 / 2))], selected = [0], used_words = [''hello''],
      current_pos = ''interjection'', rng = 0\<rparr>"
  by (simp add: talk_step1 talk_step2)

lemma word_example_hello: "word (example_hello sc) = ''hello''"
  by (simp add: example_hello_def)

lemma talk_response_for:
  assumes "0 \<le> sc"
  shows "response_for example_randint example_talk (0::nat) 15 [example_hello sc] =
   (Inr (\<lparr>candidates_considered = [example_hello (sc * (1 / 2))],
          selected_words = [example_hello (sc * (1 / 2))],
          final_text = ''hello''\<rparr>, 0), example_talk)"
proof -
  have n: "(15::nat) = Suc (Suc 13)" by simp
  have a: "assemble example_randint 15 15
     \<lparr>all_candidates = [example_hello sc], selected = [], used_words = [],
      current_pos = ''START'', rng = (0::nat)\<rparr> =
   Inr \<lparr>all_candidates = [example_hello (sc * (1 / 2))], selected = [0], used_words = [''hello''],
      current_pos = ''interjection'', rng = 0\<rparr>"
    by (subst n) (rule talk_assemble [OF assms])
  show ?thesis
    by (simp add: response_for_def Let_def a sorted_reverse_def word_example_hello)
qed

lemma window_twenty: "drop (length example_twenty - 20) example_twenty = example_twenty"
  by (simp add: example_twenty_def)

lemma window_twenty_one:
  "drop (length example_twenty_one - 20) example_twenty_one = replicate 20 ''lake''"
  by (simp add: example_twenty_one_def)

text \<open>
  The boundary of the window: with \<open>hello\<close> twentieth from the end the candidate
  \<open>hello\<close> is suppressed (\<open>0.76 * 0.3\<close>, halved once it is selected); with \<open>hello\<close>
  twenty-first from the end it is not, and the call returns what it returns for the
  last twenty entries alone.
\<close>

theorem recent_words_window_witness:
  "length example_twenty = 20 \<and> hd example_twenty = ''hello''
   \<and> generate_response example_randint example_talk example_lexicon ''goal_greet'' (0::nat)
        (Some example_twenty) 15 =
      (Inr (\<lparr>candidates_considered = [example_hello (57 / 500)],
             selected_words = [example_hello (57 / 500)],
             final_text = ''hello''\<rparr>, 0), example_talk)
   \<and> length example_twenty_one = 21 \<and> hd example_twenty_one = ''hello''
   \<and> generate_response example_randint example_talk example_lexicon ''goal_greet'' (0::nat)
        (Some example_twenty_one) 15 =
      (Inr (\<lparr>candidates_considered = [example_hello (19 / 50)],
             selected_words = [example_hello (19 / 50)],
             final_text = ''hello''\<rparr>, 0), example_talk)
   \<and> drop (length example_twenty_one - 20) example_twenty_one =
       drop (length (replicate 20 ''lake'') - 20) (replicate 20 ''lake'')
   \<and> generate_response example_randint example_talk example_lexicon ''goal_greet'' (0::nat)
        (Some example_twenty_one) 15 =
      generate_response example_randint example_talk example_lexicon ''goal_greet'' (0::nat)
        (Some (replicate 20 ''lake'')) 15"
proof -
  note w = recent_words_window [where randint = example_randint and g = example_talk
      and lexicon = example_lexicon and goal_id = "''goal_greet''" and ?rng0.0 = "0::nat"
      and max_words = 15]
  have l: "length example_twenty = 20" "hd example_twenty = ''hello''"
    "length example_twenty_one = 21" "hd example_twenty_one = ''hello''"
    by (simp_all add: example_twenty_def example_twenty_one_def)
  have in20: "''hello'' \<in> set (drop (length example_twenty - 20) example_twenty)"
    by (simp add: window_twenty) (simp add: example_twenty_def)
  have out21: "''hello'' \<notin> set (drop (length example_twenty_one - 20) example_twenty_one)"
    by (simp add: window_twenty_one)
  have a: "generate_response example_randint example_talk example_lexicon ''goal_greet'' (0::nat)
        (Some example_twenty) 15 =
      (Inr (\<lparr>candidates_considered = [example_hello (57 / 500)],
             selected_words = [example_hello (57 / 500)],
             final_text = ''hello''\<rparr>, 0), example_talk)"
    using w [of example_twenty, THEN conjunct1] in20 talk_response_for [of "57 / 250"]
    by (simp add: talk_active talk_candidates word_example_hello) (simp add: example_hello_def)
  have b: "generate_response example_randint example_talk example_lexicon ''goal_greet'' (0::nat)
        (Some example_twenty_one) 15 =
      (Inr (\<lparr>candidates_considered = [example_hello (19 / 50)],
             selected_words = [example_hello (19 / 50)],
             final_text = ''hello''\<rparr>, 0), example_talk)"
    using w [of example_twenty_one, THEN conjunct1] out21 talk_response_for [of "19 / 25"]
    by (simp add: talk_active talk_candidates word_example_hello)
  have s: "drop (length example_twenty_one - 20) example_twenty_one =
       drop (length (replicate 20 ''lake'') - 20) (replicate 20 ''lake'')"
    by (simp add: window_twenty_one)
  from w [of _ example_twenty_one "replicate 20 ''lake''", THEN conjunct2, THEN conjunct1] s
  have e: "generate_response example_randint example_talk example_lexicon ''goal_greet'' (0::nat)
        (Some example_twenty_one) 15 =
      generate_response example_randint example_talk example_lexicon ''goal_greet'' (0::nat)
        (Some (replicate 20 ''lake'')) 15"
    by blast
  show ?thesis by (intro conjI l a b s e)
qed

section \<open>The spread pass\<close>


lemma map_entry_absent: "map_of xs k = None \<Longrightarrow> AList.map_entry k f xs = xs"
  by (induction xs) (auto split: if_splits)












section \<open>Competition within a category\<close>

lemma keys_map_entry: "map fst (AList.map_entry k f xs) = map fst xs"
  by (induction xs) auto

lemma keys_update_node: "map fst (nodes (update_node k f g)) = map fst (nodes g)"
  by (simp add: update_node_def keys_map_entry)

lemma lookup_update_node:
  "map_of (nodes (update_node k f g)) k' =
     (if k' = k then map_option f (map_of (nodes g) k) else map_of (nodes g) k')"
  by (simp add: update_node_def map_of_map_entry split: option.splits)

lemma keys_suppress_fold:
  "map fst (nodes (fold (\<lambda>(i, (k, n)) g. update_node k (suppress s c i) g) ps g)) = map fst (nodes g)"
  by (induction ps arbitrary: g) (auto simp: keys_update_node)

lemma lookup_suppress_fold:
  "distinct (map fst xs) \<Longrightarrow>
     map_of (nodes (fold (\<lambda>(i, (k, n)) g. update_node k (suppress s c i) g) (enumerate m xs) g)) k =
       (if k \<in> fst ` set xs
        then map_option (suppress s c (m + rank_of k (map fst xs))) (map_of (nodes g) k)
        else map_of (nodes g) k)"
proof (induction xs arbitrary: m g)
  case Nil
  then show ?case by simp
next
  case (Cons p xs)
  obtain k0 n0 where p: "p = (k0, n0)" by (cases p)
  from Cons.prems p have d: "distinct (map fst xs)" and nk: "k0 \<notin> fst ` set xs" by auto
  show ?case
    using Cons.IH [OF d, of "Suc m" "update_node k0 (suppress s c m) g"] nk
    by (auto simp: p lookup_update_node)
qed

lemma compete_type_fold:
  "compete_type s ty g =
     (if length (firing_sorted g ty) \<le> 1 then g
      else fold (\<lambda>(i, (k, n)) h. update_node k (suppress s (length (firing_sorted g ty)) i) h)
             (enumerate 1 (tl (firing_sorted g ty))) g)"
proof (cases "length (get_nodes_by_type g ty) \<le> 1")
  case True
  have le: "length (filter (\<lambda>(k, n). is_active n) (get_nodes_by_type g ty))
          \<le> length (get_nodes_by_type g ty)"
    by (rule length_filter_le)
  from le True have "length (filter (\<lambda>(k, n). is_active n) (get_nodes_by_type g ty)) \<le> 1"
    by (rule le_trans)
  then have "length (firing_sorted g ty) \<le> 1"
    by (simp add: firing_sorted_def length_sorted_reverse)
  with True show ?thesis by (simp add: compete_type_def)
next
  case False
  then show ?thesis
    by (simp add: compete_type_def firing_sorted_def Let_def length_sorted_reverse
        suppress_def [abs_def])
qed

lemma keys_compete_type: "map fst (nodes (compete_type s ty g)) = map fst (nodes g)"
  by (simp add: compete_type_fold keys_suppress_fold)

lemma in_firing_sorted:
  "distinct (map fst (nodes g)) \<Longrightarrow>
     (k, n) \<in> set (firing_sorted g ty) \<longleftrightarrow>
       map_of (nodes g) k = Some n \<and> node_type n = ty \<and> is_active n"
  by (auto simp: firing_sorted_def set_sorted_reverse get_nodes_by_type_def)

lemma distinct_firing_sorted:
  assumes "distinct (map fst (nodes g))"
  shows "distinct (map fst (firing_sorted g ty))"
proof -
  let ?fl = "filter (\<lambda>(k, n). is_active n) (get_nodes_by_type g ty)"
  have "distinct (map fst ?fl)"
    using assms by (simp add: get_nodes_by_type_def distinct_map_filter)
  moreover have "mset (map fst (firing_sorted g ty)) = mset (map fst ?fl)"
    by (simp add: firing_sorted_def mset_sorted_reverse)
  ultimately show ?thesis by (metis mset_eq_imp_distinct_iff)
qed

lemma rank_of_tl:
  "distinct (x # xs) \<Longrightarrow> k \<in> set xs \<Longrightarrow> rank_of k (x # xs) = Suc (rank_of k xs)"
  by auto

lemma lookup_compete_type:
  assumes d: "distinct (map fst (nodes g))" and l: "map_of (nodes g) k = Some n"
  shows "map_of (nodes (compete_type s ty g)) k =
     Some (if node_type n = ty \<and> is_active n
           then suppress s (length (firing_sorted g ty))
                  (rank_of k (map fst (firing_sorted g ty))) n
           else n)"
proof -
  let ?S = "firing_sorted g ty"
  have dS: "distinct (map fst ?S)" by (rule distinct_firing_sorted [OF d])
  have mem: "k \<in> fst ` set ?S \<longleftrightarrow> node_type n = ty \<and> is_active n"
    using in_firing_sorted [OF d] l by force
  show ?thesis
  proof (cases "length ?S \<le> 1")
    case True
    have "node_type n = ty \<and> is_active n \<Longrightarrow> rank_of k (map fst ?S) = 0"
    proof -
      assume "node_type n = ty \<and> is_active n"
      with mem have "k \<in> fst ` set ?S" by simp
      with True show ?thesis by (cases ?S) auto
    qed
    with True l show ?thesis by (auto simp: compete_type_fold suppress_def)
  next
    case False
    then obtain h T where S: "?S = h # T" by (cases ?S) auto
    from dS S have dT: "distinct (map fst T)" and hT: "fst h \<notin> fst ` set T" by auto
    have fold_eq: "map_of (nodes (compete_type s ty g)) k =
        (if k \<in> fst ` set T
         then map_option (suppress s (length ?S) (1 + rank_of k (map fst T))) (map_of (nodes g) k)
         else map_of (nodes g) k)"
      using False lookup_suppress_fold [OF dT, of s "length ?S" 1 g k]
      by (simp add: compete_type_fold S)
    show ?thesis
    proof (cases "k \<in> fst ` set T")
      case True
      with hT have "k \<noteq> fst h" by metis
      then have "rank_of k (map fst ?S) = Suc (rank_of k (map fst T))" by (simp add: S)
      moreover from True mem S have "node_type n = ty \<and> is_active n" by auto
      ultimately show ?thesis using fold_eq True l by simp
    next
      case nT: False
      show ?thesis
      proof (cases "k = fst h")
        case True
        then have "rank_of k (map fst ?S) = 0" by (simp add: S)
        then show ?thesis using fold_eq nT l by (simp add: suppress_def)
      next
        case False
        with nT S have "k \<notin> fst ` set ?S" by auto
        with mem have "\<not> (node_type n = ty \<and> is_active n)" by simp
        then show ?thesis using fold_eq nT l by auto
      qed
    qed
  qed
qed

lemma rank_of_descending:
  "sorted_wrt (\<lambda>a b. (f b :: 'v :: linorder) \<le> f a) S \<Longrightarrow> distinct (map fst S) \<Longrightarrow>
     (kx, x) \<in> set S \<Longrightarrow> (ky, y) \<in> set S \<Longrightarrow> f (ky, y) < f (kx, x) \<Longrightarrow>
     rank_of kx (map fst S) < rank_of ky (map fst S)"
proof (induction S)
  case Nil
  then show ?case by simp
next
  case (Cons p S)
  obtain k0 n0 where p: "p = (k0, n0)" by (cases p)
  from Cons.prems(2) p have nk: "k0 \<notin> fst ` set S" and dS: "distinct (map fst S)" by auto
  from Cons.prems(1) have sS: "sorted_wrt (\<lambda>a b. f b \<le> f a) S"
    and hd: "\<forall>b \<in> set S. f b \<le> f p" by auto
  show ?case
  proof (cases "kx = k0")
    case True
    with Cons.prems(3) nk p have x: "(kx, x) = p" by (auto simp: image_iff)
    have "ky \<noteq> k0"
    proof
      assume "ky = k0"
      with Cons.prems(4) nk p have "(ky, y) = p" by (auto simp: image_iff)
      with x Cons.prems(5) show False by simp
    qed
    with True show ?thesis by (simp add: p)
  next
    case False
    with Cons.prems(3) p have xS: "(kx, x) \<in> set S" by auto
    show ?thesis
    proof (cases "ky = k0")
      case True
      with Cons.prems(4) nk p have "(ky, y) = p" by (auto simp: image_iff)
      with hd xS have "f (kx, x) \<le> f (ky, y)" by auto
      with Cons.prems(5) show ?thesis by simp
    next
      case ny: False
      with Cons.prems(4) p have "(ky, y) \<in> set S" by auto
      from Cons.IH [OF sS dS xS this Cons.prems(5)] False ny show ?thesis by (simp add: p)
    qed
  qed
qed

lemma compete_type_order:
  assumes d: "distinct (map fst (nodes g))"
    and x: "map_of (nodes g) kx = Some x" and y: "map_of (nodes g) ky = Some y"
    and ty: "node_type x = ty" "node_type y = ty"
    and act: "is_active x" "is_active y"
    and gt: "activation y < activation x"
    and s: "0 \<le> s"
  shows "\<exists>x' y'. map_of (nodes (compete_type s ty g)) kx = Some x'
            \<and> map_of (nodes (compete_type s ty g)) ky = Some y'
            \<and> node_type x' = ty \<and> node_type y' = ty
            \<and> activation y' < activation x'"
proof -
  let ?S = "firing_sorted g ty"
  let ?i = "rank_of kx (map fst ?S)" and ?j = "rank_of ky (map fst ?S)"
  have xs: "(kx, x) \<in> set ?S" and ys: "(ky, y) \<in> set ?S"
    using in_firing_sorted [OF d] x y ty act by auto
  have "sorted_wrt (\<lambda>a b. (case b of (k, n) \<Rightarrow> activation n) \<le> (case a of (k, n) \<Rightarrow> activation n)) ?S"
    unfolding firing_sorted_def by (rule descending_sorted_reverse)
  from rank_of_descending [OF this distinct_firing_sorted [OF d] xs ys] gt
  have ij: "?i < ?j" by simp
  have "?S \<noteq> []" using xs by auto
  then have len: "0 < real (length ?S)" by simp
  from ij have "real ?i / real (length ?S) \<le> real ?j / real (length ?S)"
    using len by (simp add: divide_le_cancel)
  with s have "s * (real ?i / real (length ?S)) \<le> s * (real ?j / real (length ?S))"
    by (rule mult_left_mono [rotated])
  with gt have "activation (suppress s (length ?S) ?j y) < activation (suppress s (length ?S) ?i x)"
    by (simp add: suppress_def)
  moreover have "map_of (nodes (compete_type s ty g)) kx = Some (suppress s (length ?S) ?i x)"
    using lookup_compete_type [OF d x, of s ty] ty act by simp
  moreover have "map_of (nodes (compete_type s ty g)) ky = Some (suppress s (length ?S) ?j y)"
    using lookup_compete_type [OF d y, of s ty] ty act by simp
  ultimately show ?thesis using ty by (simp add: suppress_def)
qed

lemma compete_type_other:
  "distinct (map fst (nodes g)) \<Longrightarrow> map_of (nodes g) k = Some n \<Longrightarrow> node_type n \<noteq> ty
     \<Longrightarrow> map_of (nodes (compete_type s ty g)) k = Some n"
  by (simp add: lookup_compete_type)

lemma keys_fold_compete:
  "map fst (nodes (fold (compete_type s) ts g)) = map fst (nodes g)"
  by (induction ts arbitrary: g) (simp_all add: keys_compete_type)

lemma fold_compete_other:
  "\<forall>t \<in> set ts. node_type n \<noteq> t \<Longrightarrow> distinct (map fst (nodes g))
     \<Longrightarrow> map_of (nodes g) k = Some n
     \<Longrightarrow> map_of (nodes (fold (compete_type s) ts g)) k = Some n"
proof (induction ts arbitrary: g)
  case Nil
  then show ?case by simp
next
  case (Cons t ts)
  have "map_of (nodes (compete_type s t g)) k = Some n"
    using Cons.prems by (intro compete_type_other) auto
  moreover have "distinct (map fst (nodes (compete_type s t g)))"
    using Cons.prems(2) by (simp add: keys_compete_type)
  ultimately show ?case using Cons.IH [of "compete_type s t g"] Cons.prems(1) by simp
qed

lemma fold_compete_order:
  assumes "distinct ts" and "ty \<in> set ts"
    and "distinct (map fst (nodes g))"
    and "map_of (nodes g) kx = Some x" and "map_of (nodes g) ky = Some y"
    and "node_type x = ty" and "node_type y = ty"
    and "is_active x" and "is_active y"
    and "activation y < activation x"
    and "0 \<le> s"
  shows "\<exists>x' y'. map_of (nodes (fold (compete_type s) ts g)) kx = Some x'
            \<and> map_of (nodes (fold (compete_type s) ts g)) ky = Some y'
            \<and> activation y' < activation x'"
  using assms
proof (induction ts arbitrary: g)
  case Nil
  then show ?case by simp
next
  case (Cons t ts)
  let ?g1 = "compete_type s t g"
  have d1: "distinct (map fst (nodes ?g1))" using Cons.prems(3) by (simp add: keys_compete_type)
  show ?case
  proof (cases "t = ty")
    case True
    from compete_type_order [OF Cons.prems(3) Cons.prems(4) Cons.prems(5) Cons.prems(6)
        Cons.prems(7) Cons.prems(8) Cons.prems(9) Cons.prems(10) Cons.prems(11)]
    obtain x' y' where x': "map_of (nodes (compete_type s ty g)) kx = Some x'"
      and y': "map_of (nodes (compete_type s ty g)) ky = Some y'"
      and tx: "node_type x' = ty" and ty': "node_type y' = ty"
      and lt: "activation y' < activation x'" by blast
    from Cons.prems(1) True have nt: "ty \<notin> set ts" by simp
    have "map_of (nodes (fold (compete_type s) ts ?g1)) kx = Some x'"
      using nt tx d1 x' True by (intro fold_compete_other) auto
    moreover have "map_of (nodes (fold (compete_type s) ts ?g1)) ky = Some y'"
      using nt ty' d1 y' True by (intro fold_compete_other) auto
    ultimately show ?thesis using lt by simp
  next
    case False
    with Cons.prems(2) have m: "ty \<in> set ts" by simp
    from Cons.prems(1) have dts: "distinct ts" by simp
    have x1: "map_of (nodes ?g1) kx = Some x"
      using Cons.prems False by (intro compete_type_other) auto
    have y1: "map_of (nodes ?g1) ky = Some y"
      using Cons.prems False by (intro compete_type_other) auto
    from Cons.IH [OF dts m d1 x1 y1 Cons.prems(6) Cons.prems(7) Cons.prems(8) Cons.prems(9)
        Cons.prems(10) Cons.prems(11)]
    show ?thesis by simp
  qed
qed

text \<open>
  C5 (amended). When the inhibition strength is not negative: if two nodes of one
  category both fire when the competition pass starts and the first has the greater
  activation, then it still has the greater activation after the pass. In the pass of its
  category a firing node at position \<open>i\<close> of the descending firing order (the top node
  at position 0) loses \<open>inhibition_strength * (i / firing_count)\<close>, so the top node is
  untouched.
\<close>

theorem competition_keeps_order:
  assumes "distinct (map fst (nodes g))"
    and "map_of (nodes g) kx = Some x" and "map_of (nodes g) ky = Some y"
    and "node_type x = node_type y"
    and "is_active x" and "is_active y"
    and "activation y < activation x"
    and "0 \<le> inhibition_strength config"
  shows "(\<exists>x' y'. map_of (nodes (competition config g)) kx = Some x'
            \<and> map_of (nodes (competition config g)) ky = Some y'
            \<and> activation y' < activation x')
       \<and> map_of (nodes (compete_type (inhibition_strength config) (node_type x) g)) kx =
           Some (x\<lparr>activation := activation x - inhibition_strength config *
                    (real (rank_of kx (map fst (firing_sorted g (node_type x))))
                       / real (length (firing_sorted g (node_type x))))\<rparr>)
       \<and> rank_of (fst (hd (firing_sorted g (node_type x)))) (map fst (firing_sorted g (node_type x))) = 0"
proof (intro conjI)
  show "\<exists>x' y'. map_of (nodes (competition config g)) kx = Some x'
            \<and> map_of (nodes (competition config g)) ky = Some y'
            \<and> activation y' < activation x'"
  proof (cases "competition_within_type config")
    case False
    then show ?thesis using assms by (simp add: competition_def)
  next
    case True
    have dv: "distinct VALID_TYPES" by (simp add: VALID_TYPES_def)
    have mem: "node_type x \<in> set VALID_TYPES"
      by (cases "node_type x") (simp_all add: VALID_TYPES_def)
    have c: "competition config g = fold (compete_type (inhibition_strength config)) VALID_TYPES g"
      using True by (simp add: competition_def)
    show ?thesis
      unfolding c
      by (rule fold_compete_order [OF dv mem assms(1) assms(2) assms(3) refl assms(4) [symmetric]
            assms(5) assms(6) assms(7) assms(8)])
  qed
  show "map_of (nodes (compete_type (inhibition_strength config) (node_type x) g)) kx =
           Some (x\<lparr>activation := activation x - inhibition_strength config *
                    (real (rank_of kx (map fst (firing_sorted g (node_type x))))
                       / real (length (firing_sorted g (node_type x))))\<rparr>)"
    using lookup_compete_type [OF assms(1) assms(2)] assms(5) by (simp add: suppress_def)
  have "(kx, x) \<in> set (firing_sorted g (node_type x))"
    using in_firing_sorted [OF assms(1)] assms by simp
  then show "rank_of (fst (hd (firing_sorted g (node_type x))))
      (map fst (firing_sorted g (node_type x))) = 0"
    by (cases "firing_sorted g (node_type x)") auto
qed

lemma rivals_concept: "compete_type s Concept example_rivals = example_rivals_after s"
  by (simp add: compete_type_def get_nodes_by_type_def example_rivals_def example_x_def
      example_y_def Node_init_def is_active_def sorted_reverse_def update_node_def
      example_rivals_after_def)

lemma compete_type_no_nodes: "get_nodes_by_type g ty = [] \<Longrightarrow> compete_type s ty g = g"
  by (simp add: compete_type_def)

lemma rivals_after_types:
  "ty \<noteq> Concept \<Longrightarrow> get_nodes_by_type (example_rivals_after s) ty = []"
  by (auto simp: get_nodes_by_type_def example_rivals_after_def example_x_def example_y_def
      Node_init_def)

lemma rivals_competition:
  "competition_within_type config \<Longrightarrow>
     competition config example_rivals = example_rivals_after (inhibition_strength config)"
  by (simp add: competition_def VALID_TYPES_def rivals_concept compete_type_no_nodes
      rivals_after_types)

text \<open>
  The specification's property is stated for every configuration: with a negative inhibition strength the
  lower-ranked node is raised, here above the top node.
\<close>

theorem competition_negative_counterexample:
  "map_of (nodes example_rivals) ''x'' = Some example_x
   \<and> map_of (nodes example_rivals) ''y'' = Some example_y
   \<and> node_type example_x = node_type example_y
   \<and> is_active example_x \<and> is_active example_y
   \<and> activation example_y < activation example_x
   \<and> competition_within_type example_negative
   \<and> map_of (nodes (competition example_negative example_rivals)) ''x'' = Some example_x
   \<and> map_of (nodes (competition example_negative example_rivals)) ''y''
       = Some (example_y\<lparr>activation := 9 / 10\<rparr>)
   \<and> \<not> activation (example_y\<lparr>activation := 9 / 10\<rparr>) \<le> activation example_x"
proof -
  have c: "competition example_negative example_rivals = example_rivals_after (- 1)"
    using rivals_competition [of example_negative] by (simp add: example_negative_def)
  show ?thesis
    unfolding c
    by (simp add: example_rivals_def example_rivals_after_def example_x_def example_y_def
        Node_init_def is_active_def example_negative_def)
qed

theorem competition_keeps_order_witness:
  "distinct (map fst (nodes example_rivals))
   \<and> map_of (nodes example_rivals) ''x'' = Some example_x
   \<and> map_of (nodes example_rivals) ''y'' = Some example_y
   \<and> node_type example_x = node_type example_y
   \<and> is_active example_x \<and> is_active example_y
   \<and> activation example_y < activation example_x
   \<and> 0 \<le> inhibition_strength DynamicsConfig_init
   \<and> map_of (nodes (competition DynamicsConfig_init example_rivals)) ''x'' = Some example_x
   \<and> map_of (nodes (competition DynamicsConfig_init example_rivals)) ''y''
       = Some (example_y\<lparr>activation := 13 / 40\<rparr>)
   \<and> activation (example_y\<lparr>activation := 13 / 40\<rparr>) < activation example_x"
proof -
  have h: "distinct (map fst (nodes example_rivals))"
    "map_of (nodes example_rivals) ''x'' = Some example_x"
    "map_of (nodes example_rivals) ''y'' = Some example_y"
    "node_type example_x = node_type example_y"
    "is_active example_x" "is_active example_y"
    "activation example_y < activation example_x"
    "0 \<le> inhibition_strength DynamicsConfig_init"
    by (simp_all add: example_rivals_def example_x_def example_y_def Node_init_def is_active_def
        DynamicsConfig_init_def)
  have c: "competition DynamicsConfig_init example_rivals = example_rivals_after (3 / 20)"
    using rivals_competition [of DynamicsConfig_init] by (simp add: DynamicsConfig_init_def)
  have x: "map_of (nodes (competition DynamicsConfig_init example_rivals)) ''x'' = Some example_x"
    unfolding c by (simp add: example_rivals_after_def)
  have y: "map_of (nodes (competition DynamicsConfig_init example_rivals)) ''y''
       = Some (example_y\<lparr>activation := 13 / 40\<rparr>)"
    unfolding c by (simp add: example_rivals_after_def)
  from competition_keeps_order [OF h, THEN conjunct1] x y
  have lt: "activation (example_y\<lparr>activation := 13 / 40\<rparr>) < activation example_x" by auto
  show ?thesis by (intro conjI h x y lt)
qed

section \<open>Rounding to the nearest double\<close>

subsection \<open>Rounding to the nearest integer\<close>



lemma round_even_of_int: "round_even (of_int k) = k"
  by (simp add: round_even_def)

lemma round_even_mono: "y \<le> z \<Longrightarrow> round_even y \<le> round_even z"
proof -
  assume yz: "y \<le> z"
  then have fl: "\<lfloor>y\<rfloor> \<le> \<lfloor>z\<rfloor>" by (rule floor_mono)
  have ly: "round_even y \<le> \<lfloor>y\<rfloor> + 1" and lz: "\<lfloor>z\<rfloor> \<le> round_even z"
    by (auto simp: round_even_def Let_def)
  show ?thesis
  proof (cases "\<lfloor>y\<rfloor> = \<lfloor>z\<rfloor>")
    case True
    with yz show ?thesis by (auto simp: round_even_def Let_def)
  next
    case False
    with fl have "\<lfloor>y\<rfloor> + 1 \<le> \<lfloor>z\<rfloor>" by simp
    with ly lz show ?thesis by linarith
  qed
qed

lemma round_even_minus: "round_even (- y) = - round_even y"
proof (cases "y = of_int \<lfloor>y\<rfloor>")
  case True
  then obtain k :: int where "y = of_int k" ..
  then have "- y = of_int (- k)" by simp
  then show ?thesis using \<open>y = of_int k\<close> by (simp only: round_even_of_int)
next
  case False
  then have f: "\<lfloor>- y\<rfloor> = - \<lfloor>y\<rfloor> - 1"
    by (metis ceiling_altdef ceiling_def add_diff_cancel_right' minus_diff_eq uminus_add_conv_diff minus_minus)
  have r: "- y - of_int (- \<lfloor>y\<rfloor> - 1) = 1 - (y - of_int \<lfloor>y\<rfloor>)" by simp
  show ?thesis
    unfolding round_even_def Let_def f r by auto
qed

subsection \<open>Exponent and spacing\<close>








lemma exponent_minus: "exponent (- x) = exponent x"
  by (simp add: exponent_def)





lemma spacing_pos: "0 < spacing x"
  by (simp add: spacing_def)

lemma spacing_minus: "spacing (- x) = spacing x"
  by (simp add: spacing_def exponent_minus)


lemma binary64_zero: "binary64 0 = 0"
  by (simp add: binary64_def)

lemma binary64_minus: "binary64 (- x) = - binary64 x"
  by (simp add: binary64_def spacing_minus round_even_minus)

lemma binary64_nonneg:
  assumes "0 \<le> x"
  shows "0 \<le> binary64 x"
proof (cases "x = 0")
  case True
  then show ?thesis by (simp add: binary64_zero)
next
  case False
  have p: "0 < spacing x" by (rule spacing_pos)
  with assms have "of_int 0 \<le> x / spacing x" by simp
  then have "round_even (of_int 0) \<le> round_even (x / spacing x)" by (rule round_even_mono)
  then have "0 \<le> round_even (x / spacing x)" by (simp only: round_even_of_int)
  then have "(0::real) \<le> of_int (round_even (x / spacing x))" by simp
  with p False show ?thesis by (simp add: binary64_def)
qed





subsection \<open>Doubles, error bounds and nearest doubles\<close>











subsection \<open>The rounded decay update\<close>


lemma binary64_abs: "binary64 \<bar>x\<bar> = \<bar>binary64 x\<bar>"
proof (cases "0 \<le> x")
  case True
  then show ?thesis using binary64_nonneg [of x] by simp
next
  case False
  then have "0 \<le> binary64 (- x)" by (intro binary64_nonneg) simp
  with False show ?thesis by (simp add: binary64_minus)
qed










subsection \<open>The rounding of some numbers\<close>















section \<open>Decay toward the baseline\<close>









section \<open>Determinism of a turn\<close>

lemma reset_after_zero: "reset (n\<lparr>activation := 0\<rparr>) = reset n"
  by (simp add: reset_def)

lemma same_structure_reset:
  assumes "same_structure g1 g2"
  shows "reset_contributions (reset_activations g1) = reset_contributions (reset_activations g2)"
proof -
  have n: "map (\<lambda>(k, n). (k, reset n)) (nodes g) =
      map (\<lambda>(k, n). (k, reset n)) (map (\<lambda>(k, n). (k, n\<lparr>activation := 0\<rparr>)) (nodes g))" for g
    by (simp add: case_prod_unfold comp_def reset_after_zero)
  have e: "map (\<lambda>e. e\<lparr>contribution := 0\<rparr>) (edges g) =
      map (\<lambda>e. e\<lparr>contribution := 0\<rparr>) (map (\<lambda>e. e\<lparr>contribution := 0\<rparr>) (edges g))" for g
    by (simp add: comp_def)
  have z: "map (\<lambda>(k, n). (k, n\<lparr>activation := 0\<rparr>)) (nodes g1) =
      map (\<lambda>(k, n). (k, n\<lparr>activation := 0\<rparr>)) (nodes g2)"
    using assms by (simp add: same_structure_def)
  have "map (\<lambda>(k, n). (k, reset n)) (nodes g1) =
      map (\<lambda>(k, n). (k, reset n)) (map (\<lambda>(k, n). (k, n\<lparr>activation := 0\<rparr>)) (nodes g1))"
    by (rule n)
  also have "\<dots> = map (\<lambda>(k, n). (k, reset n)) (map (\<lambda>(k, n). (k, n\<lparr>activation := 0\<rparr>)) (nodes g2))"
    by (simp only: z)
  also have "\<dots> = map (\<lambda>(k, n). (k, reset n)) (nodes g2)"
    by (rule n [symmetric])
  finally have n12:
    "map (\<lambda>(k, n). (k, reset n)) (nodes g1) = map (\<lambda>(k, n). (k, reset n)) (nodes g2)" .
  have e12: "map (\<lambda>e. e\<lparr>contribution := 0\<rparr>) (edges g1) = map (\<lambda>e. e\<lparr>contribution := 0\<rparr>) (edges g2)"
    using assms by (simp add: same_structure_def)
  have o: "outgoing g1 = outgoing g2" "incoming g1 = incoming g2"
    using assms by (simp_all add: same_structure_def)
  show ?thesis
    by (rule brain_graph.equality)
      (simp_all add: reset_contributions_def reset_activations_def map_nodes_def n12 e12 o)
qed

lemma same_structure_run_dynamics:
  "same_structure g1 g2 \<Longrightarrow>
     run_dynamics g1 init config_opt mods_opt = run_dynamics g2 init config_opt mods_opt"
  by (simp add: run_dynamics_def same_structure_reset)

text \<open>
  C1. Two runs of the pipeline (\<open>run_dynamics\<close>, then \<open>select_goal\<close>, then
  \<open>generate_response\<close>) with the same random source state, the same injected
  activations, configuration, modulators, vocabulary and recent words, on graphs with the
  same nodes, edges, insertion order and adjacency indices, return the same result: step
  records, final activation snapshot, top contributing edges, goal candidates, generated
  text, and the graph and random source they leave. The two graphs may even differ in
  the activations and contributions left by earlier turns, which \<open>run_dynamics\<close> resets.
\<close>

theorem pipeline_deterministic:
  assumes "same_structure g1 g2"
  shows "process_turn randint g1 lexicon init config modulators rng0 recent_words =
         process_turn randint g2 lexicon init config modulators rng0 recent_words
       \<and> run_dynamics g1 init (Some config) (Some modulators) =
         run_dynamics g2 init (Some config) (Some modulators)"
  using assms by (simp add: process_turn_def same_structure_run_dynamics)

theorem pipeline_deterministic_witness:
  "same_structure example_pair example_pair_used
   \<and> example_pair \<noteq> example_pair_used
   \<and> process_turn example_randint example_pair empty_lexicon [(''b'', 1 / 2)]
        DynamicsConfig_init default_modulators (0::nat) [''lake''] =
      process_turn example_randint example_pair_used empty_lexicon [(''b'', 1 / 2)]
        DynamicsConfig_init default_modulators (0::nat) [''lake'']"
proof -
  have s: "same_structure example_pair example_pair_used"
    by (simp add: same_structure_def example_pair_def example_pair_used_def Node_init_def)
  have d: "example_pair \<noteq> example_pair_used"
    by (simp add: example_pair_def example_pair_used_def Node_init_def)
  show ?thesis
    using s d pipeline_deterministic [OF s, of example_randint empty_lexicon "[(''b'', 1 / 2)]"
        DynamicsConfig_init default_modulators 0 "[''lake'']"]
    by simp
qed

end
